theory Spec2Isabelle
  imports
    Complex_Main
    "HOL-Library.AList"
    "HOL-Library.Char_ord"
    "HOL-Library.List_Lexorder"
    "HOL-Library.Product_Lexorder"
    "HOL-Library.Multiset"
begin

section \<open>The mutation pie-chart plotter \<^verbatim>\<open>plot.py\<close>\<close>

text \<open>
  A shallow embedding of \<^verbatim>\<open>src/plot.py\<close>. Conventions:
  \<^item> a Python \<^verbatim>\<open>str\<close> is a \<open>string\<close>; a character stands for the code point of the same
    number, so the model covers strings of code points below 256;
  \<^item> a Python \<^verbatim>\<open>dict\<close> is an association list in insertion order (\<open>AList.update\<close>
    replaces in place or appends, as assignment to a dict key does);
  \<^item> a Python \<^verbatim>\<open>float\<close> is a value of a type \<open>'f\<close>; the builtin \<^verbatim>\<open>float(s)\<close> is a
    parameter \<open>flt\<close> of the loader, and \<^verbatim>\<open>100.0 - percent\<close> is the subtraction of \<open>'f\<close>;
  \<^item> the iteration order of a Python \<^verbatim>\<open>set\<close> is a parameter \<open>iter\<close> of the renderer;
  \<^item> an exception is a value of type \<open>error\<close>; a function that may raise returns
    \<open>error + 'a\<close>;
  \<^item> the input file is the list of rows that \<^verbatim>\<open>csv.reader\<close> yields;
  \<^item> the calls into the plotting library are recorded in a trace, and their effect on
    the axes objects in a store.
\<close>

subsection \<open>Exceptions\<close>

text \<open>
  The pieces of a formatted message: literal text, the \<^verbatim>\<open>repr\<close> of a string
  (\<^verbatim>\<open>{x!r}\<close> in an f-string), a number.
\<close>

datatype piece = Lit string | Repr string | Num nat

type_synonym message = "piece list"

text \<open>
  \<open>SystemExit code msg\<close> is \<^verbatim>\<open>sys.exit(code)\<close> after \<open>msg\<close> was printed on standard error.
  An uncaught exception of any kind ends the process with a non-zero status.
\<close>

datatype error =
    AssertionError
  | SystemExit int message
  | ValueError message
  | AttributeError message
  | UnboundLocalError string
  | StopIteration
  | KeyError string
  | IndexError

text \<open>The message of a failed tuple unpacking (CPython up to 3.13).\<close>

definition unpack_error :: "nat \<Rightarrow> nat \<Rightarrow> error" where
  "unpack_error expected got =
     (if got < expected
      then ValueError [Lit ''not enough values to unpack (expected '', Num expected,
                       Lit '', got '', Num got, Lit '')'']
      else ValueError [Lit ''too many values to unpack (expected '', Num expected, Lit '')''])"

subsection \<open>Strings\<close>

text \<open>\<^verbatim>\<open>str.isspace\<close> on the code points below 256.\<close>

definition isspace :: "char \<Rightarrow> bool" where
  "isspace c =
     (let n = (of_char c :: nat)
      in (9 \<le> n \<and> n \<le> 13) \<or> (28 \<le> n \<and> n \<le> 32) \<or> n = 133 \<or> n = 160)"

text \<open>
  \<^verbatim>\<open>s.split()\<close>: the maximal runs of non-whitespace characters. \<open>cur\<close> is the token being
  read.
\<close>

fun split_acc :: "string \<Rightarrow> string \<Rightarrow> string list" where
  "split_acc cur [] = (if cur = [] then [] else [cur])"
| "split_acc cur (c # cs) =
     (if isspace c
      then (if cur = [] then split_acc [] cs else cur # split_acc [] cs)
      else split_acc (cur @ [c]) cs)"

definition split_ws :: "string \<Rightarrow> string list" where
  "split_ws s = split_acc [] s"

text \<open>\<^verbatim>\<open>s.split(sep)\<close> for a one-character separator: one part more than separators.\<close>

fun split_sep :: "char \<Rightarrow> string \<Rightarrow> string \<Rightarrow> string list" where
  "split_sep sep cur [] = [cur]"
| "split_sep sep cur (c # cs) =
     (if c = sep then cur # split_sep sep [] cs else split_sep sep (cur @ [c]) cs)"

definition split_on :: "char \<Rightarrow> string \<Rightarrow> string list" where
  "split_on sep s = split_sep sep [] s"

text \<open>The pattern \<^verbatim>\<open>\d\<close> on the code points below 256: the ten ASCII digits.\<close>

definition isdigit :: "char \<Rightarrow> bool" where
  "isdigit c = (let n = (of_char c :: nat) in 48 \<le> n \<and> n \<le> 57)"

text \<open>
  \<^verbatim>\<open>DIGITS.search(s)\<close> with \<^verbatim>\<open>DIGITS = re.compile(r"\d+")\<close>: the leftmost, longest run of
  digits, or \<open>None\<close> when \<open>s\<close> has no digit.
\<close>

definition digits_search :: "string \<Rightarrow> string option" where
  "digits_search s =
     (let rest = dropWhile (\<lambda>c. \<not> isdigit c) s
      in if rest = [] then None else Some (takeWhile isdigit rest))"

text \<open>
  \<^verbatim>\<open>int(ds)\<close> on a string of ASCII digits. (CPython's limit on the number of digits that
  \<^verbatim>\<open>int\<close> converts is not modelled.)
\<close>

definition int_of_digits :: "string \<Rightarrow> nat" where
  "int_of_digits ds = foldl (\<lambda>acc c. 10 * acc + (of_char c - 48)) 0 ds"

text \<open>\<^verbatim>\<open>int(DIGITS.search(s).group())\<close>: \<^verbatim>\<open>None.group()\<close> raises \<^verbatim>\<open>AttributeError\<close>.\<close>

definition search_int :: "string \<Rightarrow> error + nat" where
  "search_int s =
     (case digits_search s of
        None \<Rightarrow>
          Inl (AttributeError [Repr ''NoneType'', Lit '' object has no attribute '', Repr ''group''])
      | Some ds \<Rightarrow> Inr (int_of_digits ds))"

subsection \<open>The sort keys\<close>

text \<open>\<^verbatim>\<open>["native", "cap"].index(approach)\<close>.\<close>

definition method_index :: "string \<Rightarrow> error + nat" where
  "method_index approach =
     (if approach = ''native'' then Inr 0
      else if approach = ''cap'' then Inr 1
      else Inl (ValueError [Repr approach, Lit '' is not in list'']))"

text \<open>\<^verbatim>\<open>rowKey(name)\<close>: the triple (tissueNumber, tissue, approachNumber).\<close>

definition rowKey :: "string \<Rightarrow> error + (nat \<times> string \<times> nat)" where
  "rowKey name =
     (case split_ws name of
        [tissue, approach] \<Rightarrow>
          (case method_index approach of
             Inl e \<Rightarrow> Inl e
           | Inr approachNumber \<Rightarrow>
               Inr ((if tissue \<noteq> ''Serum'' then 1 else 0), tissue, approachNumber))
      | parts \<Rightarrow> Inl (unpack_error 2 (length parts)))"

text \<open>\<^verbatim>\<open>columnKey(name)\<close>: the pair (orfNumber, position).\<close>

definition columnKey :: "string \<Rightarrow> error + (nat \<times> nat)" where
  "columnKey name =
     (case split_on CHR '':'' name of
        [orf, mutation] \<Rightarrow>
          (case search_int orf of
             Inl e \<Rightarrow> Inl e
           | Inr orfNumber \<Rightarrow>
               (case search_int mutation of
                  Inl e \<Rightarrow> Inl e
                | Inr position \<Rightarrow> Inr (orfNumber, position)))
      | parts \<Rightarrow> Inl (unpack_error 2 (length parts)))"

text \<open>
  \<^verbatim>\<open>sorted(xs, key=key)\<close>: the keys are computed once, in the order of \<open>xs\<close>, so the first
  key that raises decides the exception; the sort is stable.
\<close>

fun keys_of :: "('a \<Rightarrow> error + 'k) \<Rightarrow> 'a list \<Rightarrow> error + 'k list" where
  "keys_of key [] = Inr []"
| "keys_of key (x # xs) =
     (case key x of
        Inl e \<Rightarrow> Inl e
      | Inr k \<Rightarrow> (case keys_of key xs of Inl e \<Rightarrow> Inl e | Inr ks \<Rightarrow> Inr (k # ks)))"

definition sorted_py :: "('a \<Rightarrow> error + 'k::linorder) \<Rightarrow> 'a list \<Rightarrow> error + 'a list" where
  "sorted_py key xs =
     (case keys_of key xs of
        Inl e \<Rightarrow> Inl e
      | Inr ks \<Rightarrow> Inr (map snd (sort_key fst (zip ks xs))))"

subsection \<open>The measurement table\<close>

text \<open>
  \<^verbatim>\<open>data[name][approach]\<close> is the percentage, or \<open>None\<close> for Python's \<^verbatim>\<open>None\<close>.
\<close>

type_synonym 'f cells = "(string \<times> 'f option) list"

type_synonym 'f table = "(string \<times> 'f cells) list"

text \<open>\<^verbatim>\<open>d[k]\<close>: a missing key raises \<^verbatim>\<open>KeyError\<close>.\<close>

definition dict_get :: "(string \<times> 'v) list \<Rightarrow> string \<Rightarrow> error + 'v" where
  "dict_get d k = (case map_of d k of None \<Rightarrow> Inl (KeyError k) | Some v \<Rightarrow> Inr v)"

text \<open>\<^verbatim>\<open>data[name][approach]\<close>.\<close>

definition cell :: "'f table \<Rightarrow> string \<Rightarrow> string \<Rightarrow> error + 'f option" where
  "cell data name approach =
     (case dict_get data name of
        Inl e \<Rightarrow> Inl e
      | Inr row \<Rightarrow> dict_get row approach)"

subsection \<open>The loader\<close>

definition header :: "string list" where
  "header = [''Mutation'', ''sample'', ''%Mutation'', ''%Rest'']"

text \<open>
  The message \<^verbatim>\<open>f"Approach name {approach!r} found twice for {name!r}."\<close> that is printed on
  standard error before \<^verbatim>\<open>sys.exit(1)\<close>.
\<close>

definition dup_message :: "string \<Rightarrow> string \<Rightarrow> message" where
  "dup_message approach name =
     [Lit ''Approach name '', Repr approach, Lit '' found twice for '', Repr name, Lit ''.'']"

text \<open>The body of the loop over the data rows, on the table built so far.\<close>

definition load_row :: "(string \<Rightarrow> error + 'f) \<Rightarrow> 'f table \<Rightarrow> string list \<Rightarrow> error + 'f table" where
  "load_row flt result row =
     (case row of
        [name, approach, percent, rest] \<Rightarrow>
          (let result1 = (if map_of result name = None then AList.update name [] result
                          else result);
               inner = (case map_of result1 name of None \<Rightarrow> [] | Some r \<Rightarrow> r)
           in if map_of inner approach \<noteq> None
              then Inl (SystemExit 1 (dup_message approach name))
              else if percent = []
              then Inr (AList.update name (AList.update approach None inner) result1)
              else (case flt percent of
                      Inl e \<Rightarrow> Inl e
                    | Inr v \<Rightarrow>
                        Inr (AList.update name (AList.update approach (Some v) inner) result1)))
      | fields \<Rightarrow> Inl (unpack_error 4 (length fields)))"

fun load_rows :: "(string \<Rightarrow> error + 'f) \<Rightarrow> 'f table \<Rightarrow> string list list \<Rightarrow> error + 'f table" where
  "load_rows flt result [] = Inr result"
| "load_rows flt result (row # rows) =
     (case load_row flt result row of
        Inl e \<Rightarrow> Inl e
      | Inr result' \<Rightarrow> load_rows flt result' rows)"

text \<open>
  \<^verbatim>\<open>getData\<close> on the rows of the file: \<^verbatim>\<open>next(reader)\<close> raises \<^verbatim>\<open>StopIteration\<close> on a file
  without rows, the \<^verbatim>\<open>assert\<close> checks the header.
\<close>

definition getData :: "(string \<Rightarrow> error + 'f) \<Rightarrow> string list list \<Rightarrow> error + 'f table" where
  "getData flt rows =
     (case rows of
        [] \<Rightarrow> Inl StopIteration
      | h # body \<Rightarrow> if h = header then load_rows flt [] body else Inl AssertionError)"

subsection \<open>The consistency check\<close>

text \<open>
  The loop of \<^verbatim>\<open>checkApproachNames\<close> over the keys of \<open>data\<close>; \<open>approaches\<close> is \<open>None\<close> as long
  as the local variable is unbound.
\<close>

fun check_loop ::
  "'f table \<Rightarrow> string list \<Rightarrow> bool \<Rightarrow> string set option \<Rightarrow> error + string set option" where
  "check_loop data [] first approaches = Inr approaches"
| "check_loop data (name # names) first approaches =
     (case dict_get data name of
        Inl e \<Rightarrow> Inl e
      | Inr row \<Rightarrow>
          if first then check_loop data names False (Some (set (map fst row)))
          else (case approaches of
                  None \<Rightarrow> Inl (UnboundLocalError ''approaches'')
                | Some a \<Rightarrow>
                    if set (map fst row) = a then check_loop data names first approaches
                    else Inl AssertionError))"

definition checkApproachNames :: "'f table \<Rightarrow> error + string set" where
  "checkApproachNames data =
     (case check_loop data (map fst data) True None of
        Inl e \<Rightarrow> Inl e
      | Inr None \<Rightarrow> Inl (UnboundLocalError ''approaches'')
      | Inr (Some approaches) \<Rightarrow> Inr approaches)"

subsection \<open>The renderer\<close>

type_synonym coord = "nat \<times> nat"

text \<open>
  The calls that \<^verbatim>\<open>plotPie\<close> makes on its axes object. \<^verbatim>\<open>ax.pie(sizes)\<close> passes the sizes
  only: the keyword arguments \<^verbatim>\<open>labels\<close> and \<^verbatim>\<open>autopct\<close> (the numeric label of a slice) keep
  their default \<^verbatim>\<open>None\<close>.
\<close>

datatype 'f axcall =
    SetTitle string
  | SetYLabel string
  | AxisOff
  | Pie "'f \<times> 'f" "string list option" "string option"

text \<open>
  The axes objects of the figure are shared, mutable objects: the store gives, for the
  axes object \<^verbatim>\<open>ax[row][col]\<close> (named by its coordinate), the calls that took effect on it so
  far. A method call on an axes object appends to the entry of that object.
\<close>

type_synonym 'f store = "coord \<Rightarrow> 'f axcall list"

definition ax_call :: "coord \<Rightarrow> 'f axcall \<Rightarrow> 'f store \<Rightarrow> 'f store" where
  "ax_call ax c s = s(ax := s ax @ [c])"

text \<open>
  \<^verbatim>\<open>ax.pie(sizes)\<close> raises \<^verbatim>\<open>ValueError\<close> when a size is negative, and then draws nothing. (The
  conversion of the sizes to single precision inside \<^verbatim>\<open>pie\<close> is not modelled.)
\<close>

definition pie_error :: error where
  "pie_error = ValueError [Lit ''Wedge sizes '', Repr ''x'', Lit '' must be non negative values'']"

text \<open>
  \<^verbatim>\<open>plotPie(percent, ax, row, col, approach, name)\<close> on the store: the exception raised, if
  any, and the store after the call.
\<close>

definition plotPie ::
  "('f::{zero,minus,numeral,ord}) option \<Rightarrow> coord \<Rightarrow> nat \<Rightarrow> nat \<Rightarrow> string \<Rightarrow> string \<Rightarrow>
   'f store \<Rightarrow> error option \<times> 'f store" where
  "plotPie percent ax row col approach name s =
     (let s1 = (if row = 0 then ax_call ax (SetTitle name) s else s);
          s2 = (if col = 0 then ax_call ax (SetYLabel approach) s1 else s1)
      in case percent of
           None \<Rightarrow> (None, ax_call ax AxisOff s2)
         | Some p \<Rightarrow>
             if p < 0 \<or> 100 - p < 0 then (Some pie_error, s2)
             else (None, ax_call ax (Pie (p, 100 - p) None None) s2))"

text \<open>
  The calls that \<^verbatim>\<open>makePlot\<close> makes, recorded when they are made: \<^verbatim>\<open>plt.subplots(rows, cols,
  ...)\<close>, \<^verbatim>\<open>plotPie\<close> with the percentage, the axes object \<^verbatim>\<open>ax[row][col]\<close> (named by its
  coordinate), the approach and the name, and \<^verbatim>\<open>plt.savefig(output, ...)\<close>.
\<close>

datatype 'f call =
    Subplots nat nat
  | PlotPie "'f option" coord string string
  | Savefig string

definition is_PlotPie :: "'f call \<Rightarrow> bool" where
  "is_PlotPie c = (case c of PlotPie _ _ _ _ \<Rightarrow> True | _ \<Rightarrow> False)"

definition is_Pie :: "'f axcall \<Rightarrow> bool" where
  "is_Pie c = (case c of Pie _ _ _ \<Rightarrow> True | _ \<Rightarrow> False)"

text \<open>
  Modelled from the spec: \<^verbatim>\<open>dark.dimension.dimensionalIterator\<close> is not part of the sources.
  For dimensions (rows, cols) it yields every pair of the grid once, in row-major order:
  (0,0), (0,1), ..., (0,cols-1), (1,0), ...
\<close>

definition dimensionalIterator :: "nat \<times> nat \<Rightarrow> coord list" where
  "dimensionalIterator dims = List.product [0..<fst dims] [0..<snd dims]"

text \<open>
  The inner loop of \<^verbatim>\<open>makePlot\<close> over the sorted names. The state is the rest of the
  coordinates, the trace and the store; \<^verbatim>\<open>next(coords)\<close> raises \<^verbatim>\<open>StopIteration\<close> on an
  exhausted iterator, \<^verbatim>\<open>ax[row][col]\<close> raises \<^verbatim>\<open>IndexError\<close> outside the grid, and an exception
  of \<^verbatim>\<open>plotPie\<close> ends the loop.
\<close>

fun inner_loop ::
  "('f::{zero,minus,numeral,ord}) table \<Rightarrow> nat \<times> nat \<Rightarrow> string \<Rightarrow> string list \<Rightarrow>
   coord list \<times> 'f call list \<times> 'f store \<Rightarrow>
   error option \<times> coord list \<times> 'f call list \<times> 'f store" where
  "inner_loop data dims approach [] st = (None, st)"
| "inner_loop data dims approach (name # names) (coords, tr, s) =
     (case coords of
        [] \<Rightarrow> (Some StopIteration, coords, tr, s)
      | rc # coords' \<Rightarrow>
          (case cell data name approach of
             Inl e \<Rightarrow> (Some e, coords', tr, s)
           | Inr percent \<Rightarrow>
               if fst rc < fst dims \<and> snd rc < snd dims
               then (case plotPie percent rc (fst rc) (snd rc) approach name s of
                       (Some e, s') \<Rightarrow>
                         (Some e, coords', tr @ [PlotPie percent rc approach name], s')
                     | (None, s') \<Rightarrow>
                         inner_loop data dims approach names
                           (coords', tr @ [PlotPie percent rc approach name], s'))
               else (Some IndexError, coords', tr, s)))"

text \<open>The outer loop over the sorted approaches; the names are sorted in every round.\<close>

fun outer_loop ::
  "('f::{zero,minus,numeral,ord}) table \<Rightarrow> nat \<times> nat \<Rightarrow> string list \<Rightarrow>
   coord list \<times> 'f call list \<times> 'f store \<Rightarrow>
   error option \<times> coord list \<times> 'f call list \<times> 'f store" where
  "outer_loop data dims [] st = (None, st)"
| "outer_loop data dims (approach # approaches) st =
     (case sorted_py columnKey (map fst data) of
        Inl e \<Rightarrow> (Some e, st)
      | Inr names \<Rightarrow>
          (case inner_loop data dims approach names st of
             (Some e, st') \<Rightarrow> (Some e, st')
           | (None, st') \<Rightarrow> outer_loop data dims approaches st'))"

text \<open>
  \<^verbatim>\<open>makePlot(data, output)\<close>: the exception raised, if any, the trace of calls and the store.
  \<^verbatim>\<open>plt.subplots\<close> rejects a grid without rows or columns with a \<^verbatim>\<open>ValueError\<close>. Whether
  \<^verbatim>\<open>plt.savefig\<close> can write the file is not decided by the program (the format of the
  extension, the directory, the rendering of the texts): its outcome for a path is the
  parameter \<open>savefig\<close>.
\<close>

definition makePlot ::
  "(string \<Rightarrow> error option) \<Rightarrow> (string set \<Rightarrow> string list) \<Rightarrow>
   ('f::{zero,minus,numeral,ord}) table \<Rightarrow> string \<Rightarrow>
   error option \<times> 'f call list \<times> 'f store" where
  "makePlot savefig iter data output =
     (case checkApproachNames data of
        Inl e \<Rightarrow> (Some e, [], \<lambda>rc. [])
      | Inr approaches \<Rightarrow>
          (let rows = card approaches; cols = length data
           in if rows = 0 then
                (Some (ValueError [Lit ''Number of rows must be a positive integer, not '',
                                   Num rows]), [], \<lambda>rc. [])
              else if cols = 0 then
                (Some (ValueError [Lit ''Number of columns must be a positive integer, not '',
                                   Num cols]), [], \<lambda>rc. [])
              else
                (case sorted_py rowKey (iter approaches) of
                   Inl e \<Rightarrow> (Some e, [Subplots rows cols], \<lambda>rc. [])
                 | Inr sortedApproaches \<Rightarrow>
                     (case outer_loop data (rows, cols) sortedApproaches
                             (dimensionalIterator (rows, cols), [Subplots rows cols],
                              \<lambda>rc. []) of
                        (Some e, coords, tr, s) \<Rightarrow> (Some e, tr, s)
                      | (None, coords, tr, s) \<Rightarrow>
                          (savefig output, tr @ [Savefig output], s)))))"

text \<open>
  \<^verbatim>\<open>main\<close> after the command line is parsed: load, then plot. (\<^verbatim>\<open>rcParams.update\<close> only sets
  fonts.)
\<close>

definition main ::
  "(string \<Rightarrow> error + ('f::{zero,minus,numeral,ord})) \<Rightarrow> (string \<Rightarrow> error option) \<Rightarrow>
   (string set \<Rightarrow> string list) \<Rightarrow> string list list \<Rightarrow> string \<Rightarrow>
   error option \<times> 'f call list \<times> 'f store" where
  "main flt savefig iter rows output =
     (case getData flt rows of
        Inl e \<Rightarrow> (Some e, [], \<lambda>rc. [])
      | Inr data \<Rightarrow> makePlot savefig iter data output)"

subsection \<open>Notions used in the statements\<close>

text \<open>The table as a finite map from (mutation, approach) to the stored value.\<close>

definition view :: "'f table \<Rightarrow> string \<times> string \<Rightarrow> 'f option option" where
  "view t k = (case map_of t (fst k) of None \<Rightarrow> None | Some row \<Rightarrow> map_of row (snd k))"

text \<open>The (mutation, approach) pair of a data row.\<close>

definition pair_of :: "string list \<Rightarrow> string \<times> string" where
  "pair_of row = (case row of name # approach # _ \<Rightarrow> (name, approach) | _ \<Rightarrow> ([], []))"

text \<open>A data row that the loader can read: four fields, the percent empty or a float.\<close>

definition readable :: "(string \<Rightarrow> error + 'f) \<Rightarrow> string list \<Rightarrow> bool" where
  "readable flt row =
     (case row of
        [name, approach, percent, rest] \<Rightarrow> percent = [] \<or> (case flt percent of Inl _ \<Rightarrow> False | Inr _ \<Rightarrow> True)
      | _ \<Rightarrow> False)"

text \<open>An exception reports a string when its message formats that string.\<close>

fun message_of :: "error \<Rightarrow> message" where
  "message_of (SystemExit code msg) = msg"
| "message_of (ValueError msg) = msg"
| "message_of (AttributeError msg) = msg"
| "message_of _ = []"

definition reports :: "error \<Rightarrow> string \<Rightarrow> bool" where
  "reports e s = (Repr s \<in> set (message_of e))"

text \<open>The approach names of a mutation: the keys of its row.\<close>

definition approach_names :: "'f table \<Rightarrow> string \<Rightarrow> string set option" where
  "approach_names data name =
     (case map_of data name of None \<Rightarrow> None | Some row \<Rightarrow> Some (set (map fst row)))"



text \<open>
  The column order in the words of the specification: the number read from the first run
  of decimal digits of the ORF token (before the colon), then the number read from the
  first run of digits of the mutation token (after the colon). The digits, the run and the
  number it denotes (each digit times the power of ten of its place) are written here
  without the functions of the program.
\<close>

definition is_decimal :: "char \<Rightarrow> bool" where
  "is_decimal c = (c \<in> set ''0123456789'')"

definition digit_value :: "char \<Rightarrow> nat" where
  "digit_value c = length (takeWhile (\<lambda>d. d \<noteq> c) ''0123456789'')"

primrec decimal_value :: "string \<Rightarrow> nat" where
  "decimal_value [] = 0"
| "decimal_value (c # cs) = digit_value c * 10 ^ length cs + decimal_value cs"

primrec leading_digits :: "string \<Rightarrow> string" where
  "leading_digits [] = []"
| "leading_digits (c # cs) = (if is_decimal c then c # leading_digits cs else [])"

primrec first_run :: "string \<Rightarrow> string" where
  "first_run [] = []"
| "first_run (c # cs) = (if is_decimal c then c # leading_digits cs else first_run cs)"

definition first_number :: "string \<Rightarrow> nat" where
  "first_number s = decimal_value (first_run s)"

definition contains_decimal :: "string \<Rightarrow> bool" where
  "contains_decimal s = (\<exists>c\<in>set s. is_decimal c)"

definition orf_token :: "string \<Rightarrow> string" where
  "orf_token name = takeWhile (\<lambda>c. c \<noteq> CHR '':'') name"

definition mutation_token :: "string \<Rightarrow> string" where
  "mutation_token name = drop 1 (dropWhile (\<lambda>c. c \<noteq> CHR '':'') name)"

definition spec_column_le :: "string \<Rightarrow> string \<Rightarrow> bool" where
  "spec_column_le a b =
     (first_number (orf_token a) < first_number (orf_token b) \<or>
      (first_number (orf_token a) = first_number (orf_token b) \<and>
       first_number (mutation_token a) \<le> first_number (mutation_token b)))"

definition has_digit :: "string \<Rightarrow> bool" where
  "has_digit s = list_ex isdigit s"

text \<open>The panels drawn: the calls of \<^verbatim>\<open>plotPie\<close> in a trace.\<close>

definition panels :: "'f call list \<Rightarrow> 'f call list" where
  "panels tr = filter is_PlotPie tr"

text \<open>
  A percentage that \<^verbatim>\<open>pie\<close> accepts: null (no pie is drawn) or between 0 and 100.
\<close>

definition in_range :: "('f::linordered_idom) option \<Rightarrow> bool" where
  "in_range percent = (case percent of None \<Rightarrow> True | Some p \<Rightarrow> 0 \<le> p \<and> p \<le> 100)"

text \<open>
  The calls expected on the axes object of a panel: the title in the first row, the label
  in the first column, then the hidden axis for a null percentage and the pie otherwise.
\<close>

definition panel_calls ::
  "('f::{minus,numeral}) option \<Rightarrow> nat \<Rightarrow> nat \<Rightarrow> string \<Rightarrow> string \<Rightarrow> 'f axcall list" where
  "panel_calls percent row col approach name =
     (if row = 0 then [SetTitle name] else []) @
     (if col = 0 then [SetYLabel approach] else []) @
     (case percent of
        None \<Rightarrow> [AxisOff]
      | Some p \<Rightarrow> [Pie (p, 100 - p) None None])"

text \<open>
  The calls of \<^verbatim>\<open>plotPie\<close> for a grid, in row-major order: row \<open>i\<close> is the \<open>i\<close>-th approach,
  column \<open>j\<close> the \<open>j\<close>-th name, the percentage is the stored value (these lists are used
  where every \<^verbatim>\<open>data[name][approach]\<close> is defined).
\<close>

definition stored :: "'f table \<Rightarrow> string \<Rightarrow> string \<Rightarrow> 'f option" where
  "stored data name approach = (case cell data name approach of Inl _ \<Rightarrow> None | Inr p \<Rightarrow> p)"

definition row_panels :: "'f table \<Rightarrow> nat \<Rightarrow> string \<Rightarrow> nat \<Rightarrow> string list \<Rightarrow> 'f call list" where
  "row_panels data i approach j0 names =
     map (\<lambda>jn. PlotPie (stored data (snd jn) approach) (i, fst jn) approach (snd jn))
       (enumerate j0 names)"

definition grid_panels :: "'f table \<Rightarrow> nat \<Rightarrow> string list \<Rightarrow> string list \<Rightarrow> 'f call list" where
  "grid_panels data i0 approaches names =
     concat (map (\<lambda>ia. row_panels data (fst ia) (snd ia) 0 names) (enumerate i0 approaches))"

text \<open>
  The store expected after the panels of a row, and of a grid, were drawn on the store
  \<open>s\<close>: the axes object of each coordinate of the row (of the grid) holds in addition the
  calls of its panel.
\<close>

definition row_store ::
  "('f::{minus,numeral}) table \<Rightarrow> nat \<Rightarrow> string \<Rightarrow> nat \<Rightarrow> string list \<Rightarrow> 'f store \<Rightarrow> 'f store" where
  "row_store data i approach j0 names s =
     (\<lambda>rc. s rc @
        (if fst rc = i \<and> j0 \<le> snd rc \<and> snd rc < j0 + length names
         then panel_calls (stored data (names ! (snd rc - j0)) approach) i (snd rc) approach
                (names ! (snd rc - j0))
         else []))"

definition grid_store ::
  "('f::{minus,numeral}) table \<Rightarrow> nat \<Rightarrow> string list \<Rightarrow> string list \<Rightarrow> 'f store \<Rightarrow> 'f store" where
  "grid_store data i0 approaches names s =
     (\<lambda>rc. s rc @
        (if i0 \<le> fst rc \<and> fst rc < i0 + length approaches \<and> snd rc < length names
         then panel_calls (stored data (names ! snd rc) (approaches ! (fst rc - i0))) (fst rc)
                (snd rc) (approaches ! (fst rc - i0)) (names ! snd rc)
         else []))"

text \<open>
  \<^verbatim>\<open>float\<close> on a non-empty string of ASCII digits is the number denoted (exactly, below
  \<open>2^53\<close>). This parser stands for \<^verbatim>\<open>float\<close> in the examples, whose percent fields are
  strings of digits; it rejects every other string, also those that \<^verbatim>\<open>float\<close> accepts.
\<close>

definition float_digits :: "string \<Rightarrow> error + real" where
  "float_digits s =
     (if s \<noteq> [] \<and> list_all isdigit s then Inr (real (int_of_digits s))
      else Inl (ValueError [Lit ''could not convert string to float: '', Repr s]))"

section \<open>Properties\<close>

subsection \<open>The empty table\<close>

text \<open>
  C10. The consistency check is defined on non-empty tables only. On the empty table (what
  the loader returns for a file with the header row alone) the loop body never runs, the
  local variable \<^verbatim>\<open>approaches\<close> is never bound and the \<^verbatim>\<open>return\<close> raises
  \<^verbatim>\<open>UnboundLocalError\<close>; the check does not return the empty set. \<^verbatim>\<open>makePlot\<close> and \<^verbatim>\<open>main\<close>
  stop there, before any call into the plotting library: the trace and the store are empty.
\<close>

theorem empty_table_unbound:
  "checkApproachNames ([] :: 'g table) = Inl (UnboundLocalError ''approaches'')
   \<and> checkApproachNames ([] :: 'g table) \<noteq> Inr {}
   \<and> getData parse [header] = Inr ([] :: 'g table)
   \<and> makePlot savefig iter ([] :: ('f::{zero,minus,numeral,ord}) table) output
       = (Some (UnboundLocalError ''approaches''), [], \<lambda>rc. [])
   \<and> main flt savefig iter [header] output
       = (Some (UnboundLocalError ''approaches''), ([] :: 'f call list), \<lambda>rc. [])"
  by (simp add: checkApproachNames_def getData_def makePlot_def main_def)

subsection \<open>Sorting with a key\<close>

lemma keys_of_all_Inr:
  "\<forall>x\<in>set xs. key x = Inr (k x) \<Longrightarrow> keys_of key xs = Inr (map k xs)"
  by (induction xs) auto

lemma insort_key_zip_snd:
  "\<forall>p\<in>set zs. fst p = k (snd p) \<Longrightarrow>
   map snd (insort_key fst (k x, x) zs) = insort_key k x (map snd zs)"
  by (induction zs) auto

lemma sort_key_zip_keys:
  "(\<forall>p\<in>set (sort_key fst (zip (map k xs) xs)). fst p = k (snd p))
   \<and> map snd (sort_key fst (zip (map k xs) xs)) = sort_key k xs"
proof (induction xs)
  case Nil
  show ?case by simp
next
  case (Cons x xs)
  then show ?case
    by (simp add: insort_key_zip_snd set_insort_key)
qed

lemma sorted_py_sort_key:
  assumes "\<forall>x\<in>set xs. key x = Inr (k x)"
  shows "sorted_py key xs = Inr (sort_key k xs)"
  using keys_of_all_Inr [OF assms] sort_key_zip_keys [of k xs]
  by (simp add: sorted_py_def)

lemma sorted_unique_by_key:
  assumes "sorted (map k ys)" "sorted (map k zs)" "distinct (map k zs)" "mset ys = mset zs"
  shows "ys = zs"
proof -
  have m: "mset (map k ys) = mset (map k zs)"
    using assms(4) by simp
  then have d: "distinct (map k ys)"
    using assms(3) by (metis mset_eq_imp_distinct_iff)
  have s: "set (map k ys) = set (map k zs)"
    using m by (metis set_mset_mset)
  have e: "map k ys = map k zs"
    using assms(1,2,3) d s by (simp add: sorted_distinct_set_unique)
  have "set ys = set zs"
    using assms(4) by (metis set_mset_mset)
  moreover have "inj_on k (set zs)"
    using assms(3) by (simp add: distinct_map)
  ultimately show ?thesis
    using e by (simp add: inj_on_map_eq_map)
qed

subsection \<open>The row order\<close>





subsection \<open>One panel\<close>

lemma ax_call_frame:
  "rc \<noteq> ax \<Longrightarrow> ax_call ax c s rc = s rc"
  by (simp add: ax_call_def)

lemma ax_call_here:
  "ax_call ax c s ax = s ax @ [c]"
  by (simp add: ax_call_def)

lemma plotPie_accepts:
  fixes percent :: "('f::linordered_idom) option"
  assumes "in_range percent"
  shows "plotPie percent ax row col approach name s
           = (None, s(ax := s ax @ panel_calls percent row col approach name))"
proof (cases percent)
  case None
  then show ?thesis
    by (auto simp: plotPie_def panel_calls_def ax_call_def fun_eq_iff)
next
  case (Some p)
  with assms have "\<not> (p < 0 \<or> 100 - p < 0)"
    by (simp add: in_range_def)
  with Some show ?thesis
    by (auto simp: plotPie_def panel_calls_def ax_call_def fun_eq_iff)
qed

lemma plotPie_rejects:
  fixes p :: "'f::linordered_idom"
  assumes "p < 0 \<or> 100 < p"
  shows "plotPie (Some p) ax row col approach name s
           = (Some pie_error,
              s(ax := s ax @ (if row = 0 then [SetTitle name] else [])
                           @ (if col = 0 then [SetYLabel approach] else [])))"
proof -
  from assms have "p < 0 \<or> 100 - p < 0"
    by auto
  then show ?thesis
    by (auto simp: plotPie_def ax_call_def fun_eq_iff)
qed

text \<open>
  C7, as amended. For a null percentage \<^verbatim>\<open>plotPie\<close> hides the axis of its panel and draws
  no pie: the call \<^verbatim>\<open>axis("off")\<close> is the last on the axes object and no \<^verbatim>\<open>pie\<close> call is added
  (the title of a panel of the first row and the label of a panel of the first column are
  set before). For a percentage \<open>p\<close> between 0 and 100 it adds one pie, with the two slices
  \<open>p\<close> and \<open>100 - p\<close>, passes neither labels nor a numeric format, and does not hide the
  axis. For a percentage below 0 or above 100 the call of \<^verbatim>\<open>pie\<close> raises \<^verbatim>\<open>ValueError\<close> and no
  pie is added. In every case the call changes the axes object it was given and leaves
  every other axes object of the store as it was.
\<close>

theorem plotPie_null_blank_else_pie:
  fixes p :: "'f::linordered_idom"
  shows
  "(\<exists>s'. plotPie (None :: 'f option) ax row col approach name s = (None, s')
      \<and> s' ax = s ax @ (if row = 0 then [SetTitle name] else [])
                     @ (if col = 0 then [SetYLabel approach] else []) @ [AxisOff]
      \<and> filter is_Pie (s' ax) = filter is_Pie (s ax)
      \<and> (\<forall>rc. rc \<noteq> ax \<longrightarrow> s' rc = s rc))
   \<and> (0 \<le> p \<and> p \<le> 100 \<longrightarrow>
        (\<exists>s'. plotPie (Some p) ax row col approach name s = (None, s')
           \<and> s' ax = s ax @ (if row = 0 then [SetTitle name] else [])
                          @ (if col = 0 then [SetYLabel approach] else [])
                          @ [Pie (p, 100 - p) None None]
           \<and> filter is_Pie (s' ax) = filter is_Pie (s ax) @ [Pie (p, 100 - p) None None]
           \<and> (\<forall>rc. rc \<noteq> ax \<longrightarrow> s' rc = s rc)))
   \<and> (p < 0 \<or> 100 < p \<longrightarrow>
        (\<exists>s'. plotPie (Some p) ax row col approach name s = (Some pie_error, s')
           \<and> filter is_Pie (s' ax) = filter is_Pie (s ax)
           \<and> (\<forall>rc. rc \<noteq> ax \<longrightarrow> s' rc = s rc)))"
proof -
  have null: "plotPie (None :: 'f option) ax row col approach name s
                = (None, s(ax := s ax @ panel_calls (None :: 'f option) row col approach name))"
    by (rule plotPie_accepts) (simp add: in_range_def)
  have inside: "plotPie (Some p) ax row col approach name s
                  = (None, s(ax := s ax @ panel_calls (Some p) row col approach name))"
    if "0 \<le> p \<and> p \<le> 100"
    using that by (intro plotPie_accepts) (simp add: in_range_def)
  note outside = plotPie_rejects [of p ax row col approach name s]
  from null inside outside show ?thesis
    by (simp add: panel_calls_def is_Pie_def)
qed

theorem plotPie_null_blank_else_pie_witness:
  "fst (plotPie (None :: real option) (1, 0) 1 0 ''Serum cap'' ''ORF1:Y2435K''
          ((\<lambda>rc. [])((0, 0) := [SetTitle ''ORF1:Y2435K'', Pie (30, 70) None None]))) = None
   \<and> snd (plotPie (None :: real option) (1, 0) 1 0 ''Serum cap'' ''ORF1:Y2435K''
          ((\<lambda>rc. [])((0, 0) := [SetTitle ''ORF1:Y2435K'', Pie (30, 70) None None]))) (1, 0)
       = [SetYLabel ''Serum cap'', AxisOff]
   \<and> snd (plotPie (None :: real option) (1, 0) 1 0 ''Serum cap'' ''ORF1:Y2435K''
          ((\<lambda>rc. [])((0, 0) := [SetTitle ''ORF1:Y2435K'', Pie (30, 70) None None]))) (0, 0)
       = [SetTitle ''ORF1:Y2435K'', Pie (30, 70) None None]
   \<and> fst (plotPie (Some (30 :: real)) (0, 1) 0 1 ''Serum native'' ''ORF2:C100D'' (\<lambda>rc. []))
       = None
   \<and> snd (plotPie (Some (30 :: real)) (0, 1) 0 1 ''Serum native'' ''ORF2:C100D'' (\<lambda>rc. []))
         (0, 1) = [SetTitle ''ORF2:C100D'', Pie (30, 70) None None]"
proof -
  define s0 :: "real store" where
    "s0 = (\<lambda>rc. [])((0, 0) := [SetTitle ''ORF1:Y2435K'', Pie (30, 70) None None])"
  from plotPie_null_blank_else_pie
         [where p = "30 :: real" and ax = "(1, 0)" and row = 1 and col = 0
            and approach = "''Serum cap''" and name = "''ORF1:Y2435K''" and s = s0]
  obtain s' where
    1: "plotPie (None :: real option) (1, 0) 1 0 ''Serum cap'' ''ORF1:Y2435K'' s0 = (None, s')"
    and here: "s' (1, 0) = s0 (1, 0) @ [SetYLabel ''Serum cap'', AxisOff]"
    and frame: "\<forall>rc. rc \<noteq> (1, 0) \<longrightarrow> s' rc = s0 rc"
    by auto
  have "(0 :: nat, 0 :: nat) \<noteq> (1, 0)"
    by simp
  with frame have other: "s' (0, 0) = s0 (0, 0)"
    by metis
  have r: "(0 :: real) \<le> 30 \<and> (30 :: real) \<le> 100"
    by simp
  from plotPie_null_blank_else_pie
         [where p = "30 :: real" and ax = "(0, 1)" and row = 0 and col = 1
            and approach = "''Serum native''" and name = "''ORF2:C100D''"
            and s = "\<lambda>rc. []"] r
  obtain s'' where
    2: "plotPie (Some (30 :: real)) (0, 1) 0 1 ''Serum native'' ''ORF2:C100D'' (\<lambda>rc. [])
       = (None, s'')"
    "s'' (0, 1) = [SetTitle ''ORF2:C100D'', Pie (30, 70) None None]"
    by auto
  from 1 here other 2 show ?thesis
    unfolding s0_def by simp
qed

text \<open>
  C7 as stated fails: for the percentage 150, which the loader accepts, \<^verbatim>\<open>pie\<close> raises and the
  panel holds its title and label but no pie.
\<close>

theorem plotPie_out_of_range_counterexample:
  "fst (plotPie (Some (150 :: real)) (0, 0) 0 0 ''Serum native'' ''ORF1:Y2435K'' (\<lambda>rc. []))
     = Some pie_error
   \<and> snd (plotPie (Some (150 :: real)) (0, 0) 0 0 ''Serum native'' ''ORF1:Y2435K'' (\<lambda>rc. []))
        (0, 0) = [SetTitle ''ORF1:Y2435K'', SetYLabel ''Serum native'']"
  by (simp add: plotPie_def ax_call_def)

subsection \<open>The column order\<close>

lemma split_sep_no_sep:
  "sep \<notin> set s \<Longrightarrow> split_sep sep cur s = [cur @ s]"
  by (induction s arbitrary: cur) auto

lemma split_sep_first:
  "sep \<notin> set xs \<Longrightarrow> split_sep sep cur (xs @ sep # ys) = (cur @ xs) # split_sep sep [] ys"
  by (induction xs arbitrary: cur) auto

lemma length_split_sep:
  "length (split_sep sep cur s) = Suc (count_list s sep)"
  by (induction s arbitrary: cur) auto

lemma split_on_two:
  assumes "sep \<notin> set orf" "sep \<notin> set mut"
  shows "split_on sep (orf @ sep # mut) = [orf, mut]"
  using assms by (simp add: split_on_def split_sep_first split_sep_no_sep)

lemma digit_codes:
  fixes n :: nat
  assumes "48 \<le> n" "n \<le> 57"
  shows "n = 48 \<or> n = 49 \<or> n = 50 \<or> n = 51 \<or> n = 52 \<or> n = 53 \<or> n = 54 \<or> n = 55
         \<or> n = 56 \<or> n = 57"
  using assms by arith

lemma isdigit_is_decimal:
  "isdigit c \<longleftrightarrow> is_decimal c"
proof
  assume "isdigit c"
  then have "48 \<le> (of_char c :: nat)" "(of_char c :: nat) \<le> 57"
    by (simp_all add: isdigit_def Let_def)
  from digit_codes [OF this]
  have "(of_char c :: nat) \<in> of_char ` set ''0123456789''"
    by auto
  then obtain d where "d \<in> set ''0123456789''" "(of_char c :: nat) = of_char d"
    by blast
  then show "is_decimal c"
    by (simp only: of_char_eq_iff is_decimal_def)
next
  have "\<forall>d\<in>set ''0123456789''. isdigit d"
    by (simp add: isdigit_def)
  moreover assume "is_decimal c"
  ultimately show "isdigit c"
    unfolding is_decimal_def by (rule bspec)
qed

lemma digit_value_of_char:
  assumes "is_decimal c"
  shows "of_char c - 48 = digit_value c"
proof -
  have "\<forall>d\<in>set ''0123456789''. of_char d - 48 = digit_value d"
    by (simp add: digit_value_def)
  then show ?thesis
    using assms unfolding is_decimal_def by (rule bspec)
qed

lemma isdigit_eq_is_decimal:
  "isdigit = is_decimal"
  by (rule ext) (rule isdigit_is_decimal)

lemma takeWhile_is_decimal:
  "takeWhile is_decimal s = leading_digits s"
  by (induction s) simp_all

lemma digits_run_first_run:
  "takeWhile isdigit (dropWhile (\<lambda>c. \<not> isdigit c) s) = first_run s"
  unfolding isdigit_eq_is_decimal
  by (induction s) (simp_all add: takeWhile_is_decimal)

lemma leading_digits_decimal:
  "\<forall>c\<in>set (leading_digits s). is_decimal c"
  by (induction s) auto

lemma first_run_decimal:
  "\<forall>c\<in>set (first_run s). is_decimal c"
  using leading_digits_decimal by (induction s) auto

lemma foldl_decimal_value:
  assumes "\<forall>c\<in>set ds. is_decimal c"
  shows "foldl (\<lambda>acc c. 10 * acc + (of_char c - 48)) a ds = a * 10 ^ length ds + decimal_value ds"
  using assms
proof (induction ds arbitrary: a)
  case Nil
  show ?case by simp
next
  case (Cons d ds)
  from Cons.prems have "is_decimal d" "\<forall>c\<in>set ds. is_decimal c"
    by simp_all
  with Cons.IH [of "10 * a + (of_char d - 48)"] show ?case
    by (simp add: digit_value_of_char algebra_simps)
qed

lemma int_of_digits_decimal_value:
  "\<forall>c\<in>set ds. is_decimal c \<Longrightarrow> int_of_digits ds = decimal_value ds"
  by (simp add: int_of_digits_def foldl_decimal_value)

lemma has_digit_contains_decimal:
  "has_digit s \<longleftrightarrow> contains_decimal s"
  by (simp add: has_digit_def contains_decimal_def list_ex_iff isdigit_is_decimal)

lemma search_int_digit:
  assumes "has_digit s"
  shows "search_int s = Inr (first_number s)"
proof -
  from assms have "dropWhile (\<lambda>c. \<not> isdigit c) s \<noteq> []"
    by (simp add: has_digit_def list_ex_iff)
  then have "search_int s = Inr (int_of_digits (first_run s))"
    by (simp add: search_int_def digits_search_def Let_def digits_run_first_run)
  with int_of_digits_decimal_value [OF first_run_decimal, of s] show ?thesis
    by (simp add: first_number_def)
qed

lemma search_int_no_digit:
  "\<not> has_digit s \<Longrightarrow>
   search_int s = Inl (AttributeError [Repr ''NoneType'', Lit '' object has no attribute '', Repr ''group''])"
  by (simp add: search_int_def digits_search_def Let_def has_digit_def list_ex_iff)

lemma tokens_of_name:
  assumes "CHR '':'' \<notin> set orf"
  shows "orf_token (orf @ CHR '':'' # mut) = orf" "mutation_token (orf @ CHR '':'' # mut) = mut"
proof -
  have "\<forall>c\<in>set orf. c \<noteq> CHR '':''"
    using assms by blast
  then show "orf_token (orf @ CHR '':'' # mut) = orf" "mutation_token (orf @ CHR '':'' # mut) = mut"
    by (simp_all add: orf_token_def mutation_token_def)
qed

lemma columnKey_well_formed:
  assumes "name = orf @ '':'' @ mut" "CHR '':'' \<notin> set orf" "CHR '':'' \<notin> set mut"
    "has_digit orf" "has_digit mut"
  shows "columnKey name = Inr (first_number (orf_token name), first_number (mutation_token name))"
proof -
  have n: "name = orf @ CHR '':'' # mut"
    using assms(1) by simp
  have "split_on CHR '':'' name = [orf, mut]"
    unfolding n using assms(2,3) by (rule split_on_two)
  then have "columnKey name = Inr (first_number orf, first_number mut)"
    using assms(4,5) by (simp add: columnKey_def search_int_digit)
  then show ?thesis
    unfolding n using tokens_of_name [OF assms(2)] by simp
qed

lemma one_colon_decompose:
  assumes "count_list name c = 1"
  shows "\<exists>orf mut. name = orf @ c # mut \<and> c \<notin> set orf \<and> c \<notin> set mut"
proof -
  have "c \<in> set name"
    using assms by (metis count_list_0_iff zero_neq_one)
  then obtain orf mut where n: "name = orf @ c # mut" and o: "c \<notin> set orf"
    by (meson split_list_first)
  have "count_list orf c = 0"
    using o by simp
  with assms n have "count_list mut c = 0"
    by simp
  then have "c \<notin> set mut"
    by (metis count_list_0_iff)
  with n o show ?thesis
    by blast
qed

lemma columnKey_not_two_parts:
  assumes "count_list name CHR '':'' \<noteq> 1"
  shows "columnKey name = Inl (unpack_error 2 (Suc (count_list name CHR '':'')))"
proof -
  have l: "length (split_on CHR '':'' name) = Suc (count_list name CHR '':'')"
    by (simp add: split_on_def length_split_sep)
  with assms have "length (split_on CHR '':'' name) \<noteq> 2"
    by simp
  with l show ?thesis
    unfolding columnKey_def by (auto split: list.splits)
qed

lemma columnKey_two_parts:
  assumes "count_list name CHR '':'' = 1"
  shows "columnKey name =
           (if has_digit (orf_token name) \<and> has_digit (mutation_token name)
            then Inr (first_number (orf_token name), first_number (mutation_token name))
            else Inl (AttributeError [Repr ''NoneType'', Lit '' object has no attribute '',
                                      Repr ''group'']))"
proof -
  from one_colon_decompose [OF assms] obtain orf mut where
    n: "name = orf @ CHR '':'' # mut" and o: "CHR '':'' \<notin> set orf" and m: "CHR '':'' \<notin> set mut"
    by blast
  have s: "split_on CHR '':'' name = [orf, mut]"
    unfolding n using o m by (rule split_on_two)
  have t: "orf_token name = orf" "mutation_token name = mut"
    unfolding n using tokens_of_name [OF o] by simp_all
  show ?thesis
    unfolding t
    by (cases "has_digit orf"; cases "has_digit mut")
       (simp_all add: columnKey_def s search_int_digit search_int_no_digit)
qed

text \<open>
  C2. Take any list of mutation names made of an ORF token, a colon and a mutation token,
  neither token containing a colon and both containing a decimal digit.
  \<^verbatim>\<open>sorted(data, key=columnKey)\<close> raises nothing and returns a permutation of the list that
  ascends by the number that the first run of decimal digits of the ORF token denotes, and
  for equal ORF numbers by the number that the first run of digits of the mutation token
  denotes. In particular ORF10:A12T, ORF2:B100C and ORF2:A5G, in whatever order they are
  given, are sorted as ORF2:A5G, ORF2:B100C, ORF10:A12T (the order of the numbers, not of
  the strings).
\<close>

theorem columnKey_sort_order:
  assumes "\<forall>n\<in>set xs. \<exists>orf mut. n = orf @ '':'' @ mut \<and> CHR '':'' \<notin> set orf
             \<and> CHR '':'' \<notin> set mut \<and> contains_decimal orf \<and> contains_decimal mut"
  shows "(\<exists>ys. sorted_py columnKey xs = Inr ys \<and> mset ys = mset xs
            \<and> sorted_wrt spec_column_le ys)
         \<and> (set xs = {''ORF10:A12T'', ''ORF2:B100C'', ''ORF2:A5G''} \<and> distinct xs
              \<longrightarrow> sorted_py columnKey xs = Inr [''ORF2:A5G'', ''ORF2:B100C'', ''ORF10:A12T''])"
proof -
  define k where "k = (\<lambda>n. (first_number (orf_token n), first_number (mutation_token n)))"
  have keys: "\<forall>n\<in>set xs. columnKey n = Inr (k n)"
  proof
    fix n assume "n \<in> set xs"
    with assms obtain orf mut where "n = orf @ '':'' @ mut" "CHR '':'' \<notin> set orf"
      "CHR '':'' \<notin> set mut" "contains_decimal orf" "contains_decimal mut"
      by blast
    then have "n = orf @ '':'' @ mut" "CHR '':'' \<notin> set orf"
      "CHR '':'' \<notin> set mut" "has_digit orf" "has_digit mut"
      by (simp_all add: has_digit_contains_decimal)
    then show "columnKey n = Inr (k n)"
      unfolding k_def by (rule columnKey_well_formed)
  qed
  have res: "sorted_py columnKey xs = Inr (sort_key k xs)"
    using keys by (rule sorted_py_sort_key)
  have srt: "sorted (map k (sort_key k xs))"
    by simp
  then have "sorted_wrt (\<lambda>a b. k a \<le> k b) (sort_key k xs)"
    by (simp only: sorted_map)
  then have spec: "sorted_wrt spec_column_le (sort_key k xs)"
  proof (rule sorted_wrt_mono_rel [rotated])
    fix a b
    assume "k a \<le> k b"
    then show "spec_column_le a b"
      unfolding k_def spec_column_le_def by auto
  qed
  have ex: "set xs = {''ORF10:A12T'', ''ORF2:B100C'', ''ORF2:A5G''} \<and> distinct xs
              \<longrightarrow> sorted_py columnKey xs = Inr [''ORF2:A5G'', ''ORF2:B100C'', ''ORF10:A12T'']"
  proof
    define zs where "zs = [''ORF2:A5G'', ''ORF2:B100C'', ''ORF10:A12T'']"
    assume h: "set xs = {''ORF10:A12T'', ''ORF2:B100C'', ''ORF2:A5G''} \<and> distinct xs"
    have dz: "distinct zs"
      by (simp add: zs_def)
    have sx: "set xs = set zs"
      using h by (auto simp: zs_def)
    from h have dx: "distinct xs"
      by blast
    from dx dz sx have "mset xs = mset zs"
      by (simp only: set_eq_iff_mset_eq_distinct)
    then have m: "mset (sort_key k xs) = mset zs"
      by (simp only: mset_sort)
    have kz: "map k zs = [(2, 5), (2, 100), (10, 12)]"
      by (simp add: k_def zs_def first_number_def orf_token_def mutation_token_def
            is_decimal_def digit_value_def)
    have sz: "sorted (map k zs)" and dkz: "distinct (map k zs)"
      unfolding kz by simp_all
    have "sort_key k xs = zs"
      using srt sz dkz m by (rule sorted_unique_by_key)
    with res show "sorted_py columnKey xs = Inr [''ORF2:A5G'', ''ORF2:B100C'', ''ORF10:A12T'']"
      by (simp only: zs_def)
  qed
  have "mset (sort_key k xs) = mset xs"
    by (simp only: mset_sort)
  with res spec have "\<exists>ys. sorted_py columnKey xs = Inr ys \<and> mset ys = mset xs
            \<and> sorted_wrt spec_column_le ys"
    by blast
  with ex show ?thesis
    by blast
qed

theorem columnKey_sort_order_witness:
  "sorted_py columnKey [''ORF10:A12T'', ''ORF2:B100C'', ''ORF2:A5G'']
     = Inr [''ORF2:A5G'', ''ORF2:B100C'', ''ORF10:A12T'']
   \<and> sorted_py columnKey [''ORF1:Y2435K'', ''ORF1:A300G''] = Inr [''ORF1:A300G'', ''ORF1:Y2435K'']
   \<and> sorted_wrt spec_column_le [''ORF1:A300G'', ''ORF1:Y2435K'']
   \<and> \<not> spec_column_le ''ORF1:Y2435K'' ''ORF1:A300G''"
proof -
  have a: "''ORF10:A12T'' = ''ORF10'' @ '':'' @ ''A12T''"
    and b: "''ORF2:B100C'' = ''ORF2'' @ '':'' @ ''B100C''"
    and c: "''ORF2:A5G'' = ''ORF2'' @ '':'' @ ''A5G''"
    and y: "''ORF1:Y2435K'' = ''ORF1'' @ '':'' @ ''Y2435K''"
    and g: "''ORF1:A300G'' = ''ORF1'' @ '':'' @ ''A300G''"
    by simp_all
  have d: "contains_decimal ''ORF10''" "contains_decimal ''A12T''" "contains_decimal ''ORF2''"
    "contains_decimal ''B100C''" "contains_decimal ''A5G''" "contains_decimal ''ORF1''"
    "contains_decimal ''Y2435K''" "contains_decimal ''A300G''"
    by (simp_all add: contains_decimal_def is_decimal_def)
  have e: "CHR '':'' \<notin> set ''ORF10''" "CHR '':'' \<notin> set ''A12T''" "CHR '':'' \<notin> set ''ORF2''"
    "CHR '':'' \<notin> set ''B100C''" "CHR '':'' \<notin> set ''A5G''" "CHR '':'' \<notin> set ''ORF1''"
    "CHR '':'' \<notin> set ''Y2435K''" "CHR '':'' \<notin> set ''A300G''"
    by simp_all
  have h1: "\<forall>n\<in>set [''ORF10:A12T'', ''ORF2:B100C'', ''ORF2:A5G''].
          \<exists>orf mut. n = orf @ '':'' @ mut \<and> CHR '':'' \<notin> set orf
             \<and> CHR '':'' \<notin> set mut \<and> contains_decimal orf \<and> contains_decimal mut"
    using a b c d e by (metis set_ConsD empty_iff empty_set)
  have h2: "\<forall>n\<in>set [''ORF1:Y2435K'', ''ORF1:A300G''].
          \<exists>orf mut. n = orf @ '':'' @ mut \<and> CHR '':'' \<notin> set orf
             \<and> CHR '':'' \<notin> set mut \<and> contains_decimal orf \<and> contains_decimal mut"
    using y g d e by (metis set_ConsD empty_iff empty_set)
  have s: "set [''ORF10:A12T'', ''ORF2:B100C'', ''ORF2:A5G'']
             = {''ORF10:A12T'', ''ORF2:B100C'', ''ORF2:A5G''}
           \<and> distinct [''ORF10:A12T'', ''ORF2:B100C'', ''ORF2:A5G'']"
    by auto
  from columnKey_sort_order [OF h1] s
  have 1: "sorted_py columnKey [''ORF10:A12T'', ''ORF2:B100C'', ''ORF2:A5G'']
             = Inr [''ORF2:A5G'', ''ORF2:B100C'', ''ORF10:A12T'']"
    by blast
  from columnKey_sort_order [OF h2] obtain ys where
    ys: "sorted_py columnKey [''ORF1:Y2435K'', ''ORF1:A300G''] = Inr ys"
    and so: "sorted_wrt spec_column_le ys"
    by blast
  have "sorted_py columnKey [''ORF1:Y2435K'', ''ORF1:A300G'']
          = Inr [''ORF1:A300G'', ''ORF1:Y2435K'']"
    by (simp add: sorted_py_def columnKey_def split_on_def search_int_def digits_search_def
          isdigit_def int_of_digits_def)
  with ys so have 2: "sorted_py columnKey [''ORF1:Y2435K'', ''ORF1:A300G'']
                        = Inr [''ORF1:A300G'', ''ORF1:Y2435K'']"
    and 3: "sorted_wrt spec_column_le [''ORF1:A300G'', ''ORF1:Y2435K'']"
    by simp_all
  have 4: "\<not> spec_column_le ''ORF1:Y2435K'' ''ORF1:A300G''"
    by (simp add: spec_column_le_def first_number_def orf_token_def mutation_token_def
          is_decimal_def digit_value_def)
  from 1 2 3 4 show ?thesis
    by blast
qed

text \<open>
  C8, as amended. \<^verbatim>\<open>columnKey\<close> fails on every malformed name: a name with no colon or
  with several raises the \<^verbatim>\<open>ValueError\<close> of the failed unpacking, and a name with one colon
  whose ORF token or mutation token has no decimal digit raises the \<^verbatim>\<open>AttributeError\<close> of
  \<^verbatim>\<open>None.group()\<close>. The message of neither exception formats the offending name.
\<close>

theorem columnKey_malformed_fails:
  "(count_list name CHR '':'' \<noteq> 1 \<longrightarrow>
      columnKey name = Inl (unpack_error 2 (Suc (count_list name CHR '':''))))
   \<and> (count_list name CHR '':'' = 1
        \<and> (\<not> has_digit (orf_token name) \<or> \<not> has_digit (mutation_token name)) \<longrightarrow>
      columnKey name = Inl (AttributeError [Repr ''NoneType'', Lit '' object has no attribute '',
                                            Repr ''group'']))
   \<and> (\<forall>e. columnKey name = Inl e \<longrightarrow> \<not> reports e name)"
proof (cases "count_list name CHR '':'' = 1")
  case True
  have "\<not> reports e name" if e: "columnKey name = Inl e" for e
  proof
    assume r: "reports e name"
    from e columnKey_two_parts [OF True]
    have "e = AttributeError [Repr ''NoneType'', Lit '' object has no attribute '', Repr ''group'']"
      by (simp split: if_splits)
    with r have "name = ''NoneType'' \<or> name = ''group''"
      by (simp add: reports_def)
    then have "count_list name CHR '':'' = 0"
      by auto
    with True show False
      by simp
  qed
  with True columnKey_two_parts [OF True] show ?thesis
    by auto
next
  case False
  from columnKey_not_two_parts [OF False] show ?thesis
    using False by (auto simp: unpack_error_def reports_def)
qed

theorem columnKey_malformed_fails_witness:
  "columnKey ''ORF1'' = Inl (ValueError [Lit ''not enough values to unpack (expected '', Num 2,
                                         Lit '', got '', Num 1, Lit '')''])
   \<and> columnKey ''ORF1:A5G:T'' = Inl (ValueError [Lit ''too many values to unpack (expected '',
                                                  Num 2, Lit '')''])
   \<and> columnKey ''ORF1:AG'' = Inl (AttributeError [Repr ''NoneType'',
                                     Lit '' object has no attribute '', Repr ''group''])"
proof -
  have a: "count_list ''ORF1'' CHR '':'' \<noteq> 1" "count_list ''ORF1'' CHR '':'' = 0"
    by simp_all
  have b: "count_list ''ORF1:A5G:T'' CHR '':'' \<noteq> 1" "count_list ''ORF1:A5G:T'' CHR '':'' = 2"
    by simp_all
  have c: "count_list ''ORF1:AG'' CHR '':'' = 1
           \<and> (\<not> has_digit (orf_token ''ORF1:AG'') \<or> \<not> has_digit (mutation_token ''ORF1:AG''))"
    by (simp add: has_digit_def mutation_token_def isdigit_def)
  from columnKey_malformed_fails [of "''ORF1''"] a
  have 1: "columnKey ''ORF1'' = Inl (unpack_error 2 (Suc 0))"
    by metis
  from columnKey_malformed_fails [of "''ORF1:A5G:T''"] b
  have 2: "columnKey ''ORF1:A5G:T'' = Inl (unpack_error 2 (Suc 2))"
    by metis
  from columnKey_malformed_fails [of "''ORF1:AG''"] c
  have 3: "columnKey ''ORF1:AG'' = Inl (AttributeError [Repr ''NoneType'',
                                     Lit '' object has no attribute '', Repr ''group''])"
    by blast
  from 1 2 3 show ?thesis
    by (simp add: unpack_error_def)
qed

text \<open>
  C8 as stated fails: the exception raised for ORFX:A5G, whose ORF token has no digit, is
  the \<^verbatim>\<open>AttributeError\<close> with its fixed message, which does not name ORFX:A5G.
\<close>

theorem columnKey_error_does_not_name_counterexample:
  "\<not> has_digit (orf_token ''ORFX:A5G'')
   \<and> columnKey ''ORFX:A5G'' = Inl (AttributeError [Repr ''NoneType'',
                                     Lit '' object has no attribute '', Repr ''group''])
   \<and> \<not> reports (AttributeError [Repr ''NoneType'', Lit '' object has no attribute '',
                                Repr ''group'']) ''ORFX:A5G''"
  by (simp add: columnKey_def split_on_def search_int_def digits_search_def isdigit_def
        reports_def has_digit_def orf_token_def)

subsection \<open>The consistency check\<close>

lemma dict_get_key:
  "name \<in> fst ` set data \<Longrightarrow> \<exists>row. dict_get data name = Inr row \<and> map_of data name = Some row"
  by (cases "map_of data name") (auto simp: dict_get_def map_of_eq_None_iff)

lemma check_loop_rest_ok:
  assumes "\<forall>n\<in>set names. approach_names data n = Some a"
  shows "check_loop data names False (Some a) = Inr (Some a)"
  using assms
proof (induction names)
  case Nil
  show ?case by simp
next
  case (Cons n names)
  from Cons.prems obtain row where "map_of data n = Some row" "set (map fst row) = a"
    by (auto simp: approach_names_def split: option.splits)
  with Cons show ?case
    by (simp add: dict_get_def)
qed

lemma check_loop_rest_Inr:
  assumes "check_loop data names False (Some a) = Inr r"
  shows "r = Some a \<and> (\<forall>n\<in>set names. approach_names data n = Some a)"
  using assms
proof (induction names)
  case Nil
  then show ?case by simp
next
  case (Cons n names)
  then show ?case
    by (auto simp: dict_get_def approach_names_def split: option.splits if_splits)
qed

lemma check_loop_rest_mismatch:
  assumes "set names \<subseteq> fst ` set data" "\<exists>n\<in>set names. approach_names data n \<noteq> Some a"
  shows "check_loop data names False (Some a) = Inl AssertionError"
  using assms
proof (induction names)
  case Nil
  then show ?case by simp
next
  case (Cons n names)
  from Cons.prems(1) have "n \<in> fst ` set data"
    by simp
  from dict_get_key [OF this] obtain row where
    row: "dict_get data n = Inr row" "map_of data n = Some row"
    by blast
  show ?case
  proof (cases "set (map fst row) = a")
    case True
    with row have "approach_names data n = Some a"
      by (simp add: approach_names_def)
    with Cons.prems have "set names \<subseteq> fst ` set data"
      "\<exists>n\<in>set names. approach_names data n \<noteq> Some a"
      by auto
    from Cons.IH [OF this] row True show ?thesis
      by simp
  next
    case False
    with row show ?thesis
      by simp
  qed
qed

lemma checkApproachNames_Cons:
  fixes data :: "'f table"
  assumes "map fst data = n # ns"
  obtains row :: "'f cells" where "approach_names data n = Some (set (map fst row))"
    and "checkApproachNames data
               = (case check_loop data ns False (Some (set (map fst row))) of
                    Inl e \<Rightarrow> Inl e
                  | Inr None \<Rightarrow> Inl (UnboundLocalError ''approaches'')
                  | Inr (Some approaches) \<Rightarrow> Inr approaches)"
proof -
  have "n \<in> fst ` set data"
    using assms by (metis list.set_intros(1) set_map)
  from dict_get_key [OF this] obtain row where
    row: "dict_get data n = Inr row" "map_of data n = Some row"
    by blast
  show thesis
  proof (rule that [of row])
    show "approach_names data n = Some (set (map fst row))"
      using row by (simp add: approach_names_def)
    show "checkApproachNames data
               = (case check_loop data ns False (Some (set (map fst row))) of
                    Inl e \<Rightarrow> Inl e
                  | Inr None \<Rightarrow> Inl (UnboundLocalError ''approaches'')
                  | Inr (Some approaches) \<Rightarrow> Inr approaches)"
      using row assms by (simp add: checkApproachNames_def)
  qed
qed

lemma checkApproachNames_Inr_iff:
  fixes data :: "'f table"
  shows "checkApproachNames data = Inr A \<longleftrightarrow>
     (\<exists>n ns. map fst data = n # ns \<and> approach_names data n = Some A
        \<and> (\<forall>n'\<in>set ns. approach_names data n' = Some A))"
proof (cases "map fst data")
  case Nil
  then show ?thesis
    by (simp add: checkApproachNames_def)
next
  case (Cons n ns)
  obtain row :: "'f cells" where
    row: "approach_names data n = Some (set (map fst row))" and
    c: "checkApproachNames data
          = (case check_loop data ns False (Some (set (map fst row))) of
               Inl e \<Rightarrow> Inl e
             | Inr None \<Rightarrow> Inl (UnboundLocalError ''approaches'')
             | Inr (Some approaches) \<Rightarrow> Inr approaches)"
    by (rule checkApproachNames_Cons [OF Cons])
  show ?thesis
  proof
    assume "checkApproachNames data = Inr A"
    with c obtain r where r: "check_loop data ns False (Some (set (map fst row))) = Inr r"
      and "r = Some A"
      by (auto split: sum.splits option.splits)
    with check_loop_rest_Inr [OF r] row Cons
    show "\<exists>n ns. map fst data = n # ns \<and> approach_names data n = Some A
        \<and> (\<forall>n'\<in>set ns. approach_names data n' = Some A)"
      by auto
  next
    assume "\<exists>n ns. map fst data = n # ns \<and> approach_names data n = Some A
        \<and> (\<forall>n'\<in>set ns. approach_names data n' = Some A)"
    with Cons row have a: "A = set (map fst row)" and "\<forall>n'\<in>set ns. approach_names data n' = Some A"
      by auto
    from check_loop_rest_ok [OF this(2)] c a show "checkApproachNames data = Inr A"
      by simp
  qed
qed

lemma checkApproachNames_mismatch:
  fixes data :: "'f table"
  assumes "map fst data = n # ns" "\<exists>n'\<in>set ns. approach_names data n' \<noteq> approach_names data n"
  shows "checkApproachNames data = Inl AssertionError"
proof -
  obtain row :: "'f cells" where
    row: "approach_names data n = Some (set (map fst row))" and
    c: "checkApproachNames data
          = (case check_loop data ns False (Some (set (map fst row))) of
               Inl e \<Rightarrow> Inl e
             | Inr None \<Rightarrow> Inl (UnboundLocalError ''approaches'')
             | Inr (Some approaches) \<Rightarrow> Inr approaches)"
    by (rule checkApproachNames_Cons [OF assms(1)])
  have "set ns \<subseteq> fst ` set data"
    using assms(1) by (metis set_map set_subset_Cons)
  moreover have "\<exists>n'\<in>set ns. approach_names data n' \<noteq> Some (set (map fst row))"
    using assms(2) row by simp
  ultimately have "check_loop data ns False (Some (set (map fst row))) = Inl AssertionError"
    by (rule check_loop_rest_mismatch)
  with c show ?thesis
    by simp
qed

text \<open>
  C3. \<^verbatim>\<open>checkApproachNames\<close> returns a set \<open>A\<close> exactly when the table has a first mutation
  (in the iteration order of its keys), \<open>A\<close> is the set of approach names of that mutation
  and the set of approach names of every other mutation is \<open>A\<close> too. When some mutation
  differs from the first, the \<^verbatim>\<open>assert\<close> fails: the check raises \<^verbatim>\<open>AssertionError\<close> and
  \<^verbatim>\<open>makePlot\<close> ends with it before any call into the plotting library: its trace and its
  store are empty.
\<close>

theorem checkApproachNames_iff_same_sets:
  "(checkApproachNames data = Inr A \<longleftrightarrow>
      (\<exists>n ns. map fst data = n # ns \<and> approach_names data n = Some A
         \<and> (\<forall>n'\<in>set ns. approach_names data n' = Some A)))
   \<and> ((\<exists>n ns. map fst data = n # ns
          \<and> (\<exists>n'\<in>set ns. approach_names data n' \<noteq> approach_names data n)) \<longrightarrow>
        checkApproachNames data = Inl AssertionError
        \<and> makePlot savefig iter data out = (Some AssertionError, [], \<lambda>rc. []))"
proof -
  have "checkApproachNames data = Inl AssertionError
        \<and> makePlot savefig iter data out = (Some AssertionError, [], \<lambda>rc. [])"
    if "\<exists>n ns. map fst data = n # ns
          \<and> (\<exists>n'\<in>set ns. approach_names data n' \<noteq> approach_names data n)"
  proof -
    from that have "checkApproachNames data = Inl AssertionError"
      by (elim exE conjE) (rule checkApproachNames_mismatch)
    then show ?thesis
      by (simp add: makePlot_def)
  qed
  with checkApproachNames_Inr_iff [of data A] show ?thesis
    by blast
qed

theorem checkApproachNames_iff_same_sets_witness:
  "checkApproachNames [(''ORF1:Y2435K'', [(''A'', Some (1 :: real)), (''B'', None)]),
                       (''ORF2:C100D'', [(''B'', Some 2), (''A'', Some 3)])] = Inr {''A'', ''B''}
   \<and> makePlot (\<lambda>path. None) sorted_list_of_set
        [(''ORF1:Y2435K'', [(''A'', Some (1 :: real)), (''B'', None)]),
         (''ORF2:C100D'', [(''A'', Some 2)])] ''out.png''
       = (Some AssertionError, [], \<lambda>rc. [])"
proof -
  define good :: "real table" where
    "good = [(''ORF1:Y2435K'', [(''A'', Some 1), (''B'', None)]),
             (''ORF2:C100D'', [(''B'', Some 2), (''A'', Some 3)])]"
  define bad :: "real table" where
    "bad = [(''ORF1:Y2435K'', [(''A'', Some 1), (''B'', None)]),
            (''ORF2:C100D'', [(''A'', Some 2)])]"
  have g: "\<exists>n ns. map fst good = n # ns \<and> approach_names good n = Some {''A'', ''B''}
         \<and> (\<forall>n'\<in>set ns. approach_names good n' = Some {''A'', ''B''})"
    by (auto simp: good_def approach_names_def)
  have b: "\<exists>n ns. map fst bad = n # ns
          \<and> (\<exists>n'\<in>set ns. approach_names bad n' \<noteq> approach_names bad n)"
    by (auto simp: bad_def approach_names_def)
  from checkApproachNames_iff_same_sets
         [where data = good and A = "{''A'', ''B''}" and iter = sorted_list_of_set
            and out = "''out.png''" and savefig = "\<lambda>path. None"] g
  have 1: "checkApproachNames good = Inr {''A'', ''B''}"
    by blast
  from checkApproachNames_iff_same_sets
         [where data = bad and A = "{''A'', ''B''}" and iter = sorted_list_of_set
            and out = "''out.png''" and savefig = "\<lambda>path. None"] b
  have 2: "makePlot (\<lambda>path. None) sorted_list_of_set bad ''out.png''
             = (Some AssertionError, [], \<lambda>rc. [])"
    by blast
  from 1 2 show ?thesis
    unfolding good_def bad_def by blast
qed

subsection \<open>The loader\<close>

lemma view_store:
  assumes "inner = (case map_of result1 name of None \<Rightarrow> [] | Some r \<Rightarrow> r)"
    and "\<forall>k. view result1 k = view result k"
  shows "view (AList.update name (AList.update approach v inner) result1)
           = (view result)((name, approach) \<mapsto> v)"
proof
  fix k :: "string \<times> string"
  obtain m a where k: "k = (m, a)"
    by (cases k)
  show "view (AList.update name (AList.update approach v inner) result1) k
          = ((view result)((name, approach) \<mapsto> v)) k"
  proof (cases "m = name")
    case True
    have "view result (name, a) = map_of inner a"
      using assms(2) [rule_format, of "(name, a)", symmetric] assms(1)
      by (simp add: view_def split: option.splits)
    with True k show ?thesis
      by (simp add: view_def update_conv')
  next
    case False
    with k assms(2) [rule_format, of "(m, a)"] show ?thesis
      by (simp add: view_def update_conv')
  qed
qed

lemma view_new_name:
  "map_of result name = None \<Longrightarrow> view (AList.update name [] result) k = view result k"
  by (cases k) (simp add: view_def update_conv')

lemma load_row_Inr:
  assumes "load_row flt result row = Inr result'"
  shows "\<exists>name approach percent rest v.
           row = [name, approach, percent, rest]
           \<and> view result (name, approach) = None
           \<and> view result' = (view result)((name, approach) \<mapsto> v)
           \<and> ((percent = [] \<and> v = None) \<or> (percent \<noteq> [] \<and> (\<exists>x. flt percent = Inr x \<and> v = Some x)))"
proof -
  from assms obtain name approach percent rest where
    row: "row = [name, approach, percent, rest]"
    by (auto simp: load_row_def split: list.splits)
  define result1 where
    "result1 = (if map_of result name = None then AList.update name [] result else result)"
  define inner where
    "inner = (case map_of result1 name of None \<Rightarrow> [] | Some r \<Rightarrow> r)"
  have lr: "load_row flt result row =
      (if map_of inner approach \<noteq> None
       then Inl (SystemExit 1 (dup_message approach name))
       else if percent = []
       then Inr (AList.update name (AList.update approach None inner) result1)
       else (case flt percent of
               Inl e \<Rightarrow> Inl e
             | Inr v \<Rightarrow> Inr (AList.update name (AList.update approach (Some v) inner) result1)))"
    unfolding row load_row_def Let_def result1_def inner_def
    by (simp only: list.case)
  have same: "\<forall>k. view result1 k = view result k"
    by (simp add: result1_def view_new_name)
  have absent: "map_of inner approach = None"
    using assms unfolding lr by (simp split: if_splits)
  have "view result1 (name, approach) = map_of inner approach"
    by (simp add: view_def inner_def split: option.splits)
  with same absent have none: "view result (name, approach) = None"
    by simp
  show ?thesis
  proof (cases "percent = []")
    case True
    with assms absent have "result' = AList.update name (AList.update approach None inner) result1"
      unfolding lr by simp
    with view_store [OF inner_def same] row none True show ?thesis
      by simp
  next
    case False
    with assms absent obtain x where x: "flt percent = Inr x"
      and "result' = AList.update name (AList.update approach (Some x) inner) result1"
      unfolding lr by (auto split: sum.splits)
    with view_store [OF inner_def same] row none False show ?thesis
      by simp
  qed
qed

lemma load_row_Inl:
  assumes "readable flt row" "load_row flt result row = Inl e"
  shows "\<exists>name approach percent rest.
           row = [name, approach, percent, rest]
           \<and> e = SystemExit 1 (dup_message approach name)
           \<and> view result (name, approach) \<noteq> None"
proof -
  from assms(1) obtain name approach percent rest where
    row: "row = [name, approach, percent, rest]"
    and p: "percent = [] \<or> (\<exists>x. flt percent = Inr x)"
    by (auto simp: readable_def split: list.splits sum.splits)
  define result1 where
    "result1 = (if map_of result name = None then AList.update name [] result else result)"
  define inner where
    "inner = (case map_of result1 name of None \<Rightarrow> [] | Some r \<Rightarrow> r)"
  have lr: "load_row flt result row =
      (if map_of inner approach \<noteq> None
       then Inl (SystemExit 1 (dup_message approach name))
       else if percent = []
       then Inr (AList.update name (AList.update approach None inner) result1)
       else (case flt percent of
               Inl e \<Rightarrow> Inl e
             | Inr v \<Rightarrow> Inr (AList.update name (AList.update approach (Some v) inner) result1)))"
    unfolding row load_row_def Let_def result1_def inner_def
    by (simp only: list.case)
  have same: "\<forall>k. view result1 k = view result k"
    by (simp add: result1_def view_new_name)
  have "view result1 (name, approach) = map_of inner approach"
    by (simp add: view_def inner_def split: option.splits)
  with same have v: "view result (name, approach) = map_of inner approach"
    by simp
  from assms(2) p have "map_of inner approach \<noteq> None \<and> e = SystemExit 1 (dup_message approach name)"
    unfolding lr by (auto split: if_splits)
  with v row show ?thesis
    by simp
qed

lemma load_rows_keeps:
  "load_rows flt t rows = Inr t' \<Longrightarrow> view t k = Some v \<Longrightarrow> view t' k = Some v"
proof (induction rows arbitrary: t)
  case Nil
  then show ?case by simp
next
  case (Cons row rows)
  from Cons.prems(1) obtain t1 where
    1: "load_row flt t row = Inr t1" and 2: "load_rows flt t1 rows = Inr t'"
    by (auto split: sum.splits)
  from load_row_Inr [OF 1] Cons.prems(2) have "view t1 k = Some v"
    by auto
  with 2 show ?case
    by (rule Cons.IH)
qed

lemma load_rows_stores:
  assumes "load_rows flt t rows = Inr t'" "[name, approach, percent, rest] \<in> set rows"
  shows "\<exists>v. view t' (name, approach) = Some v
           \<and> ((percent = [] \<and> v = None) \<or> (percent \<noteq> [] \<and> (\<exists>x. flt percent = Inr x \<and> v = Some x)))"
  using assms
proof (induction rows arbitrary: t)
  case Nil
  then show ?case by simp
next
  case (Cons row rows)
  from Cons.prems(1) obtain t1 where
    1: "load_row flt t row = Inr t1" and 2: "load_rows flt t1 rows = Inr t'"
    by (auto split: sum.splits)
  show ?case
  proof (cases "[name, approach, percent, rest] \<in> set rows")
    case True
    with 2 show ?thesis
      by (rule Cons.IH)
  next
    case False
    with Cons.prems(2) have "row = [name, approach, percent, rest]"
      by simp
    with load_row_Inr [OF 1] obtain v where "view t1 (name, approach) = Some v"
      and v: "(percent = [] \<and> v = None) \<or> (percent \<noteq> [] \<and> (\<exists>x. flt percent = Inr x \<and> v = Some x))"
      by auto
    from load_rows_keeps [OF 2 this(1)] v show ?thesis
      by blast
  qed
qed

lemma load_rows_origin:
  assumes "load_rows flt t rows = Inr t'" "view t' (name, approach) = Some v"
  shows "view t (name, approach) = Some v
         \<or> (\<exists>percent rest. [name, approach, percent, rest] \<in> set rows
              \<and> ((percent = [] \<and> v = None) \<or> (percent \<noteq> [] \<and> (\<exists>x. flt percent = Inr x \<and> v = Some x))))"
  using assms
proof (induction rows arbitrary: t)
  case Nil
  then show ?case by simp
next
  case (Cons row rows)
  from Cons.prems(1) obtain t1 where
    1: "load_row flt t row = Inr t1" and 2: "load_rows flt t1 rows = Inr t'"
    by (auto split: sum.splits)
  from Cons.IH [OF 2 Cons.prems(2)] consider
    (before) "view t1 (name, approach) = Some v"
    | (later) "\<exists>percent rest. [name, approach, percent, rest] \<in> set rows
              \<and> ((percent = [] \<and> v = None) \<or> (percent \<noteq> [] \<and> (\<exists>x. flt percent = Inr x \<and> v = Some x)))"
    by blast
  then show ?case
  proof cases
    case before
    from load_row_Inr [OF 1] obtain n a p r w where
      row: "row = [n, a, p, r]" and t1: "view t1 = (view t)((n, a) \<mapsto> w)"
      and w: "(p = [] \<and> w = None) \<or> (p \<noteq> [] \<and> (\<exists>x. flt p = Inr x \<and> w = Some x))"
      by blast
    show ?thesis
    proof (cases "(n, a) = (name, approach)")
      case True
      with before t1 have "w = v"
        by simp
      with w have "(p = [] \<and> v = None) \<or> (p \<noteq> [] \<and> (\<exists>x. flt p = Inr x \<and> v = Some x))"
        by simp
      moreover from True row have "[name, approach, p, r] \<in> set (row # rows)"
        by simp
      ultimately show ?thesis
        by blast
    next
      case False
      with before t1 show ?thesis
        by (simp split: if_splits)
    qed
  next
    case later
    then obtain percent rest where "[name, approach, percent, rest] \<in> set (row # rows)"
      "(percent = [] \<and> v = None) \<or> (percent \<noteq> [] \<and> (\<exists>x. flt percent = Inr x \<and> v = Some x))"
      by auto
    then show ?thesis
      by blast
  qed
qed

lemma cell_view:
  "cell t name approach = Inr v \<longleftrightarrow> view t (name, approach) = Some v"
  by (simp add: cell_def dict_get_def view_def split: option.splits)

lemma view_empty:
  "view [] k = None"
  by (simp add: view_def)

lemma getData_Inr:
  assumes "getData flt rows = Inr table"
  shows "load_rows flt [] (tl rows) = Inr table"
  using assms by (cases rows) (auto simp: getData_def split: if_splits)

text \<open>
  C5. When \<^verbatim>\<open>getData\<close> returns a table for a file with the data row (mutation, approach,
  percent, rest), then \<^verbatim>\<open>table[mutation][approach]\<close> is the value that \<^verbatim>\<open>float\<close> parsed from
  the percent field when the field is not empty, and \<^verbatim>\<open>None\<close> (not the number zero) when
  the field is the empty string.
\<close>

theorem getData_round_trip:
  fixes table :: "('f::zero) table"
  assumes "getData flt rows = Inr table" "[name, approach, percent, rest] \<in> set (tl rows)"
  shows "(percent = [] \<longrightarrow> cell table name approach = Inr None
                            \<and> cell table name approach \<noteq> Inr (Some 0))
         \<and> (percent \<noteq> [] \<longrightarrow>
              (\<exists>x. flt percent = Inr x \<and> cell table name approach = Inr (Some x)))"
proof -
  from load_rows_stores [OF getData_Inr [OF assms(1)] assms(2)]
  obtain v where "view table (name, approach) = Some v"
    and "(percent = [] \<and> v = None) \<or> (percent \<noteq> [] \<and> (\<exists>x. flt percent = Inr x \<and> v = Some x))"
    by blast
  then show ?thesis
    by (auto simp: cell_view [symmetric])
qed

theorem getData_round_trip_witness:
  "getData float_digits
     [header, [''ORF1:Y2435K'', ''Serum native'', ''42'', ''58''],
              [''ORF1:Y2435K'', ''Serum cap'', '''', '''']]
     = Inr [(''ORF1:Y2435K'', [(''Serum native'', Some 42), (''Serum cap'', None)])]
   \<and> cell [(''ORF1:Y2435K'', [(''Serum native'', Some (42 :: real)), (''Serum cap'', None)])]
        ''ORF1:Y2435K'' ''Serum native'' = Inr (Some 42)
   \<and> cell [(''ORF1:Y2435K'', [(''Serum native'', Some (42 :: real)), (''Serum cap'', None)])]
        ''ORF1:Y2435K'' ''Serum cap'' = Inr None"
proof -
  define rows where
    "rows = [header, [''ORF1:Y2435K'', ''Serum native'', ''42'', ''58''],
                     [''ORF1:Y2435K'', ''Serum cap'', '''', '''']]"
  define t :: "real table" where
    "t = [(''ORF1:Y2435K'', [(''Serum native'', Some 42), (''Serum cap'', None)])]"
  have g: "getData float_digits rows = Inr t"
    by (simp add: rows_def t_def getData_def load_row_def float_digits_def isdigit_def
          int_of_digits_def)
  have r1: "[''ORF1:Y2435K'', ''Serum native'', ''42'', ''58''] \<in> set (tl rows)"
    and r2: "[''ORF1:Y2435K'', ''Serum cap'', '''', ''''] \<in> set (tl rows)"
    by (simp_all add: rows_def)
  have f: "float_digits ''42'' = Inr 42"
    by (simp add: float_digits_def isdigit_def int_of_digits_def)
  from getData_round_trip [OF g r1] f
  have 1: "cell t ''ORF1:Y2435K'' ''Serum native'' = Inr (Some 42)"
    by auto
  from getData_round_trip [OF g r2]
  have 2: "cell t ''ORF1:Y2435K'' ''Serum cap'' = Inr None"
    by auto
  from g 1 2 show ?thesis
    unfolding rows_def t_def by blast
qed

subsection \<open>Duplicate rows\<close>


lemma load_rows_Inl:
  assumes "\<forall>row\<in>set rows. readable flt row" "load_rows flt t rows = Inl e"
  shows "\<exists>n a. e = SystemExit 1 (dup_message a n)
           \<and> (view t (n, a) \<noteq> None \<and> (n, a) \<in> set (map pair_of rows)
                \<or> 2 \<le> count_list (map pair_of rows) (n, a))"
  using assms
proof (induction rows arbitrary: t)
  case Nil
  then show ?case by simp
next
  case (Cons row rows)
  show ?case
  proof (cases "load_row flt t row")
    case (Inl e')
    with Cons.prems(2) have e: "e' = e"
      by simp
    from Cons.prems(1) have "readable flt row"
      by simp
    from load_row_Inl [OF this Inl] e obtain n a p r where
      "row = [n, a, p, r]" "e = SystemExit 1 (dup_message a n)" "view t (n, a) \<noteq> None"
      by blast
    then show ?thesis
      by (auto simp: pair_of_def)
  next
    case (Inr t1)
    with Cons.prems(2) have 2: "load_rows flt t1 rows = Inl e"
      by simp
    from Cons.prems(1) have "\<forall>row\<in>set rows. readable flt row"
      by simp
    from Cons.IH [OF this 2] obtain n a where
      e: "e = SystemExit 1 (dup_message a n)" and
      c: "view t1 (n, a) \<noteq> None \<and> (n, a) \<in> set (map pair_of rows)
            \<or> 2 \<le> count_list (map pair_of rows) (n, a)"
      by blast
    from load_row_Inr [OF Inr] obtain n0 a0 p0 r0 v where
      row: "row = [n0, a0, p0, r0]" and t1: "view t1 = (view t)((n0, a0) \<mapsto> v)"
      by blast
    have p: "pair_of row = (n0, a0)"
      by (simp add: row pair_of_def)
    from c have "view t (n, a) \<noteq> None \<and> (n, a) \<in> set (map pair_of (row # rows))
            \<or> 2 \<le> count_list (map pair_of (row # rows)) (n, a)"
    proof
      assume h: "view t1 (n, a) \<noteq> None \<and> (n, a) \<in> set (map pair_of rows)"
      show ?thesis
      proof (cases "(n, a) = (n0, a0)")
        case True
        from h have "count_list (map pair_of rows) (n, a) \<noteq> 0"
          by (simp only: count_list_0_iff not_not)
        with True p have "2 \<le> count_list (map pair_of (row # rows)) (n, a)"
          by simp
        then show ?thesis ..
      next
        case False
        with h t1 have "view t (n, a) \<noteq> None"
          by (simp split: if_splits)
        with h show ?thesis
          by simp
      qed
    next
      assume "2 \<le> count_list (map pair_of rows) (n, a)"
      then have "2 \<le> count_list (map pair_of (row # rows)) (n, a)"
        by simp
      then show ?thesis ..
    qed
    with e show ?thesis
      by blast
  qed
qed




subsection \<open>No range check\<close>

lemma distinct_count_list_le:
  "distinct xs \<Longrightarrow> count_list xs x \<le> 1"
  by (induction xs) auto

lemma load_rows_readable_distinct:
  assumes "\<forall>row\<in>set body. readable flt row" "distinct (map pair_of body)"
  shows "\<exists>table. load_rows flt [] body = Inr table"
proof (cases "load_rows flt [] body")
  case (Inr table)
  then show ?thesis by blast
next
  case (Inl e)
  from load_rows_Inl [OF assms(1) Inl] obtain n a where
    "2 \<le> count_list (map pair_of body) (n, a)"
    by (auto simp: view_empty)
  with distinct_count_list_le [OF assms(2), of "(n, a)"] show ?thesis
    by simp
qed

text \<open>
  C9, as amended. A file with the expected header, data rows of four fields with an empty
  or parseable percent and no repeated (mutation, approach) pair is loaded. In a loaded
  table, the numbers are exactly the values that \<^verbatim>\<open>float\<close> returned for the non-empty percent
  fields: every data row with a non-empty percent field has the parsed number of that
  field at its mutation and approach, and \<^verbatim>\<open>table[mutation][approach]\<close> is the number \<open>x\<close> if
  and only if a data row with that mutation and approach has a non-empty percent field
  that \<^verbatim>\<open>float\<close> parses as \<open>x\<close>.
  The loader compares the number with no bound.
\<close>

theorem getData_stores_parsed_value:
  "(rows = header # body \<and> (\<forall>row\<in>set body. readable flt row) \<and> distinct (map pair_of body)
      \<longrightarrow> (\<exists>table. getData flt rows = Inr table))
   \<and> (getData flt rows = Inr table \<longrightarrow>
        (\<forall>name approach percent rest.
           [name, approach, percent, rest] \<in> set (tl rows) \<and> percent \<noteq> [] \<longrightarrow>
             (\<exists>x. flt percent = Inr x \<and> cell table name approach = Inr (Some x)))
        \<and> (\<forall>name approach x.
             cell table name approach = Inr (Some x) \<longleftrightarrow>
               (\<exists>percent rest. [name, approach, percent, rest] \<in> set (tl rows)
                  \<and> percent \<noteq> [] \<and> flt percent = Inr x)))"
proof -
  have loads: "\<exists>table. getData flt rows = Inr table"
    if "rows = header # body \<and> (\<forall>row\<in>set body. readable flt row)
          \<and> distinct (map pair_of body)"
    using that load_rows_readable_distinct [of body flt] by (simp add: getData_def)
  have records: "\<exists>x. flt percent = Inr x \<and> cell table name approach = Inr (Some x)"
    if g: "getData flt rows = Inr table"
      and r: "[name, approach, percent, rest] \<in> set (tl rows) \<and> percent \<noteq> []"
    for name approach percent rest
  proof -
    from r have "[name, approach, percent, rest] \<in> set (tl rows)" and p: "percent \<noteq> []"
      by simp_all
    from load_rows_stores [OF getData_Inr [OF g] this(1)] p
    obtain x where "flt percent = Inr x" "view table (name, approach) = Some (Some x)"
      by auto
    then show ?thesis
      by (simp add: cell_view)
  qed
  have exact: "cell table name approach = Inr (Some x) \<longleftrightarrow>
             (\<exists>percent rest. [name, approach, percent, rest] \<in> set (tl rows)
                \<and> percent \<noteq> [] \<and> flt percent = Inr x)"
    if g: "getData flt rows = Inr table" for name approach x
  proof
    assume "cell table name approach = Inr (Some x)"
    then have "view table (name, approach) = Some (Some x)"
      by (simp add: cell_view)
    from load_rows_origin [OF getData_Inr [OF g] this]
    show "\<exists>percent rest. [name, approach, percent, rest] \<in> set (tl rows)
                \<and> percent \<noteq> [] \<and> flt percent = Inr x"
      by (auto simp: view_empty)
  next
    assume "\<exists>percent rest. [name, approach, percent, rest] \<in> set (tl rows)
                \<and> percent \<noteq> [] \<and> flt percent = Inr x"
    then obtain percent rest where r: "[name, approach, percent, rest] \<in> set (tl rows)"
      and p: "percent \<noteq> []" "flt percent = Inr x"
      by blast
    from load_rows_stores [OF getData_Inr [OF g] r] p
    have "view table (name, approach) = Some (Some x)"
      by auto
    then show "cell table name approach = Inr (Some x)"
      by (simp add: cell_view)
  qed
  from loads records exact show ?thesis
    by blast
qed

theorem getData_stores_parsed_value_witness:
  "\<exists>table. getData float_digits
              [header, [''ORF1:Y2435K'', ''Serum native'', ''250'', ''''],
                       [''ORF1:Y2435K'', ''Serum cap'', '''', '''']] = Inr table
      \<and> cell table ''ORF1:Y2435K'' ''Serum native'' = Inr (Some 250)
      \<and> cell table ''ORF1:Y2435K'' ''Serum cap'' \<noteq> Inr (Some 250)"
proof -
  define body where
    "body = [[''ORF1:Y2435K'', ''Serum native'', ''250'', ''''],
             [''ORF1:Y2435K'', ''Serum cap'', '''', '''']]"
  have h: "header # body = header # body \<and> (\<forall>row\<in>set body. readable float_digits row)
             \<and> distinct (map pair_of body)"
    by (simp add: body_def readable_def float_digits_def isdigit_def pair_of_def)
  from getData_stores_parsed_value
         [where rows = "header # body" and body = body and flt = float_digits] h
  obtain table where g: "getData float_digits (header # body) = Inr table"
    by blast
  have f: "float_digits ''250'' = Inr 250"
    by (simp add: float_digits_def isdigit_def int_of_digits_def)
  have here: "\<exists>percent rest. [''ORF1:Y2435K'', ''Serum native'', percent, rest]
                  \<in> set (tl (header # body))
                \<and> percent \<noteq> [] \<and> float_digits percent = Inr 250"
    using f by (auto simp: body_def)
  have there: "\<not> (\<exists>percent rest. [''ORF1:Y2435K'', ''Serum cap'', percent, rest]
                  \<in> set (tl (header # body))
                \<and> percent \<noteq> [] \<and> float_digits percent = Inr 250)"
    by (auto simp: body_def)
  note iff = getData_stores_parsed_value
         [where rows = "header # body" and body = body and flt = float_digits
            and table = table, THEN conjunct2, rule_format, OF g, THEN conjunct2,
          rule_format]
  from iff [of "''ORF1:Y2435K''" "''Serum native''" 250] here
  have 1: "cell table ''ORF1:Y2435K'' ''Serum native'' = Inr (Some 250)"
    by blast
  from iff [of "''ORF1:Y2435K''" "''Serum cap''" 250] there
  have 2: "cell table ''ORF1:Y2435K'' ''Serum cap'' \<noteq> Inr (Some 250)"
    by blast
  from g 1 2 show ?thesis
    unfolding body_def by blast
qed

text \<open>
  C9 as stated fails: the percent field 150 is loaded as the number 150, which is not in
  the range from 0 to 100.
\<close>

theorem getData_no_range_check_counterexample:
  "getData float_digits [header, [''ORF1:Y2435K'', ''Serum native'', ''150'', '''']]
     = Inr [(''ORF1:Y2435K'', [(''Serum native'', Some 150)])]
   \<and> cell [(''ORF1:Y2435K'', [(''Serum native'', Some (150 :: real))])]
        ''ORF1:Y2435K'' ''Serum native'' = Inr (Some 150)
   \<and> \<not> ((0 :: real) \<le> 150 \<and> (150 :: real) \<le> 100)"
  by (simp add: getData_def load_row_def float_digits_def isdigit_def int_of_digits_def
        cell_def dict_get_def)

subsection \<open>The grid\<close>

lemma row_store_Cons:
  "row_store data i a (Suc j0) names
     (s((i, j0) := s (i, j0) @ panel_calls (stored data n a) i j0 a n))
   = row_store data i a j0 (n # names) s"
proof
  fix rc :: coord
  obtain i' j' where rc: "rc = (i', j')"
    by (cases rc)
  consider (here) "i' = i" "j' = j0" | (later) "i' = i" "Suc j0 \<le> j'" | (other) "i' \<noteq> i \<or> j' < j0"
    by linarith
  then show "row_store data i a (Suc j0) names
               (s((i, j0) := s (i, j0) @ panel_calls (stored data n a) i j0 a n)) rc
             = row_store data i a j0 (n # names) s rc"
  proof cases
    case here
    then show ?thesis
      by (simp add: rc row_store_def)
  next
    case later
    then have "j' - j0 = Suc (j' - Suc j0)"
      by simp
    with later show ?thesis
      by (simp add: rc row_store_def)
  next
    case other
    then show ?thesis
      by (auto simp: rc row_store_def)
  qed
qed

lemma row_store_Nil:
  "row_store data i a j0 [] s = s"
  by (auto simp: row_store_def fun_eq_iff)

lemma inner_loop_draws:
  fixes data :: "('f::linordered_idom) table"
  assumes "\<forall>n\<in>set names. \<exists>p. cell data n a = Inr p \<and> in_range p"
    and "i < fst dims" "j0 + length names \<le> snd dims"
  shows "inner_loop data dims a names (map (Pair i) [j0..<j0 + length names] @ rest, tr, s)
           = (None, rest, tr @ row_panels data i a j0 names, row_store data i a j0 names s)"
  using assms
proof (induction names arbitrary: j0 tr s)
  case Nil
  show ?case
    by (simp add: row_panels_def row_store_Nil)
next
  case (Cons n names)
  from Cons.prems(1) obtain p where p: "cell data n a = Inr p" and r: "in_range p"
    by auto
  have st: "stored data n a = p"
    using p by (simp add: stored_def)
  have u: "[j0..<j0 + length (n # names)] = j0 # [Suc j0..<Suc j0 + length names]"
    by (subst upt_rec) simp
  have pp: "plotPie p (i, j0) i j0 a n s
              = (None, s((i, j0) := s (i, j0) @ panel_calls p i j0 a n))"
    using r by (rule plotPie_accepts)
  have ih: "inner_loop data dims a names
              (map (Pair i) [Suc j0..<Suc j0 + length names] @ rest,
               tr @ [PlotPie p (i, j0) a n],
               s((i, j0) := s (i, j0) @ panel_calls p i j0 a n))
            = (None, rest, (tr @ [PlotPie p (i, j0) a n]) @ row_panels data i a (Suc j0) names,
               row_store data i a (Suc j0) names
                 (s((i, j0) := s (i, j0) @ panel_calls p i j0 a n)))"
    using Cons.prems by (intro Cons.IH) simp_all
  have "j0 < snd dims"
    using Cons.prems(3) by simp
  with p pp ih Cons.prems(2) row_store_Cons [of data i a j0 names s n] show ?case
    unfolding u by (simp add: row_panels_def st)
qed

lemma grid_store_Cons:
  "grid_store data (Suc i0) as names (row_store data i0 a 0 names s)
   = grid_store data i0 (a # as) names s"
proof
  fix rc :: coord
  obtain i' j' where rc: "rc = (i', j')"
    by (cases rc)
  consider (here) "i' = i0" | (later) "Suc i0 \<le> i'" | (other) "i' < i0"
    by linarith
  then show "grid_store data (Suc i0) as names (row_store data i0 a 0 names s) rc
             = grid_store data i0 (a # as) names s rc"
  proof cases
    case here
    then show ?thesis
      by (simp add: rc grid_store_def row_store_def)
  next
    case later
    then have "i' - i0 = Suc (i' - Suc i0)"
      by simp
    with later show ?thesis
      by (simp add: rc grid_store_def row_store_def)
  next
    case other
    then show ?thesis
      by (simp add: rc grid_store_def row_store_def)
  qed
qed

lemma grid_store_Nil:
  "grid_store data i0 [] names s = s"
  by (auto simp: grid_store_def fun_eq_iff)

lemma outer_loop_draws:
  fixes data :: "('f::linordered_idom) table"
  assumes "sorted_py columnKey (map fst data) = Inr sn"
    and "\<forall>a\<in>set as. \<forall>n\<in>set sn. \<exists>p. cell data n a = Inr p \<and> in_range p"
    and "i0 + length as \<le> fst dims" "length sn = snd dims"
  shows "outer_loop data dims as
           (concat (map (\<lambda>i. map (Pair i) [0..<snd dims]) [i0..<i0 + length as]) @ rest, tr, s)
           = (None, rest, tr @ grid_panels data i0 as sn, grid_store data i0 as sn s)"
  using assms
proof (induction as arbitrary: i0 tr s)
  case Nil
  show ?case
    by (simp add: grid_panels_def grid_store_Nil)
next
  case (Cons a as)
  have u: "[i0..<i0 + length (a # as)] = i0 # [Suc i0..<Suc i0 + length as]"
    by (subst upt_rec) simp
  have cells: "\<forall>n\<in>set sn. \<exists>p. cell data n a = Inr p \<and> in_range p"
    using Cons.prems(2) by simp
  have "i0 < fst dims"
    using Cons.prems(3) by simp
  from inner_loop_draws [OF cells this, of 0] Cons.prems(4)
  have inner: "inner_loop data dims a sn
                 (map (Pair i0) [0..<snd dims]
                    @ (concat (map (\<lambda>i. map (Pair i) [0..<snd dims])
                                 [Suc i0..<Suc i0 + length as]) @ rest), tr, s)
               = (None, concat (map (\<lambda>i. map (Pair i) [0..<snd dims])
                                  [Suc i0..<Suc i0 + length as]) @ rest,
                  tr @ row_panels data i0 a 0 sn, row_store data i0 a 0 sn s)"
    by simp
  have ih: "outer_loop data dims as
              (concat (map (\<lambda>i. map (Pair i) [0..<snd dims]) [Suc i0..<Suc i0 + length as])
                 @ rest, tr @ row_panels data i0 a 0 sn, row_store data i0 a 0 sn s)
            = (None, rest, (tr @ row_panels data i0 a 0 sn) @ grid_panels data (Suc i0) as sn,
               grid_store data (Suc i0) as sn (row_store data i0 a 0 sn s))"
    using Cons.prems by (intro Cons.IH) simp_all
  show ?case
    unfolding u using Cons.prems(1) inner ih
    by (simp add: grid_panels_def grid_store_Cons)
qed

lemma length_row_panels:
  "length (row_panels data i a j0 names) = length names"
  by (simp add: row_panels_def)

lemma nth_row_panels:
  "j < length names \<Longrightarrow>
   row_panels data i a j0 names ! j = PlotPie (stored data (names ! j) a) (i, j0 + j) a (names ! j)"
  by (simp add: row_panels_def nth_enumerate_eq)

lemma grid_panels_Cons:
  "grid_panels data i0 (a # as) names
     = row_panels data i0 a 0 names @ grid_panels data (Suc i0) as names"
  by (simp add: grid_panels_def)

lemma length_grid_panels:
  "length (grid_panels data i0 as names) = length as * length names"
  by (induction as arbitrary: i0) (simp_all add: grid_panels_def length_row_panels)

lemma nth_grid_panels:
  assumes "i < length as" "j < length names"
  shows "grid_panels data i0 as names ! (i * length names + j)
           = PlotPie (stored data (names ! j) (as ! i)) (i0 + i, j) (as ! i) (names ! j)"
  using assms
proof (induction as arbitrary: i0 i)
  case Nil
  then show ?case by simp
next
  case (Cons a as)
  show ?case
  proof (cases i)
    case 0
    with Cons.prems(2) show ?thesis
      by (simp add: grid_panels_Cons nth_append length_row_panels nth_row_panels)
  next
    case (Suc i')
    with Cons.prems(1) have "i' < length as"
      by simp
    from Cons.IH [OF this Cons.prems(2), of "Suc i0"]
    have "grid_panels data (Suc i0) as names ! (i' * length names + j)
            = PlotPie (stored data (names ! j) (as ! i')) (Suc i0 + i', j) (as ! i') (names ! j)" .
    moreover have "(row_panels data i0 a 0 names @ grid_panels data (Suc i0) as names)
                     ! (i * length names + j)
                   = grid_panels data (Suc i0) as names ! (i' * length names + j)"
      unfolding Suc by (simp add: nth_append length_row_panels)
    ultimately show ?thesis
      unfolding Suc by (simp add: grid_panels_Cons)
  qed
qed

lemma consistent_cells:
  fixes data :: "'f table"
  assumes "checkApproachNames data = Inr A" "n \<in> set (map fst data)" "a \<in> A"
  shows "\<exists>p. cell data n a = Inr p"
proof -
  from assms(1) obtain n0 ns where k: "map fst data = n0 # ns"
    and first: "approach_names data n0 = Some A"
    and others: "\<forall>n'\<in>set ns. approach_names data n' = Some A"
    unfolding checkApproachNames_Inr_iff by auto
  from assms(2) k first others have "approach_names data n = Some A"
    by auto
  then obtain row :: "'f cells" where row: "map_of data n = Some row" and "set (map fst row) = A"
    by (auto simp: approach_names_def split: option.splits)
  with assms(3) have "a \<in> fst ` set row"
    by simp
  then obtain p where "map_of row a = Some p"
    by (metis map_of_eq_None_iff not_Some_eq)
  with row show ?thesis
    by (simp add: cell_def dict_get_def)
qed

lemma consistent_nonempty:
  assumes "checkApproachNames data = Inr A"
  shows "data \<noteq> []"
  using assms by (auto simp: checkApproachNames_def)

lemma sorted_py_all_keys:
  assumes "\<forall>x\<in>set xs. \<exists>k. key x = Inr k"
  shows "\<exists>ys. sorted_py key xs = Inr ys \<and> mset ys = mset xs"
proof -
  have "\<forall>x\<in>set xs. key x = Inr (projr (key x))"
    using assms by auto
  from sorted_py_sort_key [of xs key "\<lambda>x. projr (key x)", OF this] show ?thesis
    by simp
qed

lemma panels_grid:
  "panels ([Subplots r c] @ grid_panels data i0 as names @ [Savefig out])
     = grid_panels data i0 as names"
proof -
  have "\<forall>x\<in>set (grid_panels data i0 as names). is_PlotPie x"
    by (auto simp: grid_panels_def row_panels_def is_PlotPie_def)
  then have "filter is_PlotPie (grid_panels data i0 as names) = grid_panels data i0 as names"
    by (simp only: filter_True)
  then show ?thesis
    by (simp add: panels_def is_PlotPie_def)
qed

lemma makePlot_consistent:
  fixes data :: "('f::linordered_idom) table"
  assumes c: "checkApproachNames data = Inr A"
    and ne: "A \<noteq> {}"
    and sa: "sorted_py rowKey (iter A) = Inr sa" "length sa = card A" "set sa = A"
    and sn: "sorted_py columnKey (map fst data) = Inr sn" "length sn = length data"
      "set sn = set (map fst data)"
    and rg: "\<forall>n a p. cell data n a = Inr p \<longrightarrow> in_range p"
  shows "makePlot savefig iter data out
           = (savefig out,
              [Subplots (card A) (length data)] @ grid_panels data 0 sa sn @ [Savefig out],
              grid_store data 0 sa sn (\<lambda>rc. []))"
proof -
  have r: "card A \<noteq> 0"
    using sa(2,3) ne by auto
  have cc: "length data \<noteq> 0"
    using consistent_nonempty [OF c] by simp
  have cells: "\<forall>a\<in>set sa. \<forall>n\<in>set sn. \<exists>p. cell data n a = Inr p \<and> in_range p"
    using consistent_cells [OF c] sa(3) sn(3) rg by metis
  have it: "dimensionalIterator (card A, length data)
              = concat (map (\<lambda>i. map (Pair i) [0..<snd (card A, length data)])
                          [0..<0 + length sa]) @ []"
    by (simp add: dimensionalIterator_def product_concat_map sa(2))
  have "outer_loop data (card A, length data) sa
          (dimensionalIterator (card A, length data), [Subplots (card A) (length data)],
           \<lambda>rc. [])
        = (None, [], [Subplots (card A) (length data)] @ grid_panels data 0 sa sn,
           grid_store data 0 sa sn (\<lambda>rc. []))"
    unfolding it
    by (rule outer_loop_draws [OF sn(1) cells]) (simp_all add: sa(2) sn(2))
  with c r cc sa(1) show ?thesis
    by (simp add: makePlot_def)
qed

text \<open>
  C6, as amended. Take a table with distinct mutation names that passes the consistency
  check with the approach set \<open>A\<close>, an iteration order of \<open>A\<close>, and suppose that every
  approach name has a row key, every mutation name a column key, and every number in the
  table lies between 0 and 100. Let \<open>sa\<close> be the approaches sorted by the row key and \<open>sn\<close>
  the names sorted by the column key. Then \<^verbatim>\<open>makePlot\<close> calls \<^verbatim>\<open>plotPie\<close> exactly
  \<open>card A * length data\<close> times, and the call number \<open>i * length data + j\<close> (row-major: the
  row varies slowest) is the one for the approach of rank \<open>i\<close> and the mutation of rank
  \<open>j\<close>, with the stored percentage, on the axes object at the coordinate \<open>(i, j)\<close>; that axes
  object holds the calls of this one panel and no others, and no axes object outside the
  grid holds any. As \<open>sa\<close> and \<open>sn\<close> list the approaches and the names without repetition,
  every pair has one panel. When \<open>A\<close> is not empty, \<^verbatim>\<open>plt.savefig\<close> is the last call and its
  outcome is the outcome of the run.
\<close>

theorem makePlot_one_panel_per_pair:
  fixes data :: "('f::linordered_idom) table"
  assumes c: "checkApproachNames data = Inr A"
    and d: "distinct (map fst data)"
    and it: "set (iter A) = A \<and> distinct (iter A)"
    and rk: "\<forall>a\<in>A. \<exists>k. rowKey a = Inr k"
    and ck: "\<forall>n\<in>set (map fst data). \<exists>k. columnKey n = Inr k"
    and rg: "\<forall>n a v. cell data n a = Inr (Some v) \<longrightarrow> 0 \<le> v \<and> v \<le> 100"
  shows "\<exists>sa sn e tr st.
      sorted_py rowKey (iter A) = Inr sa \<and> sorted_py columnKey (map fst data) = Inr sn
    \<and> distinct sa \<and> set sa = A \<and> distinct sn \<and> set sn = set (map fst data)
    \<and> makePlot savefig iter data out = (e, tr, st)
    \<and> length (panels tr) = card A * length data
    \<and> (\<forall>i<card A. \<forall>j<length data. \<exists>p. cell data (sn ! j) (sa ! i) = Inr p
          \<and> panels tr ! (i * length data + j) = PlotPie p (i, j) (sa ! i) (sn ! j)
          \<and> st (i, j) = panel_calls p i j (sa ! i) (sn ! j))
    \<and> (\<forall>rc. \<not> (fst rc < card A \<and> snd rc < length data) \<longrightarrow> st rc = [])
    \<and> (A \<noteq> {} \<longrightarrow> e = savefig out
          \<and> tr = [Subplots (card A) (length data)] @ panels tr @ [Savefig out])"
proof -
  from it rk have "\<forall>x\<in>set (iter A). \<exists>k. rowKey x = Inr k"
    by simp
  from sorted_py_all_keys [OF this] obtain sa where
    sa: "sorted_py rowKey (iter A) = Inr sa" and msa: "mset sa = mset (iter A)"
    by blast
  from sorted_py_all_keys [OF ck] obtain sn where
    sn: "sorted_py columnKey (map fst data) = Inr sn" and msn: "mset sn = mset (map fst data)"
    by blast
  have dsa: "distinct sa" and ssa: "set sa = A"
    using msa it by (metis mset_eq_imp_distinct_iff, metis set_mset_mset)
  have dsn: "distinct sn" and ssn: "set sn = set (map fst data)"
    using msn d by (metis mset_eq_imp_distinct_iff, metis set_mset_mset)
  have lsa: "length sa = card A"
    using dsa ssa by (metis distinct_card)
  have lsn: "length sn = length data"
    using msn by (metis length_map size_mset)
  have rg': "\<forall>n a p. cell data n a = Inr p \<longrightarrow> in_range p"
  proof (intro allI impI)
    fix n a p
    assume "cell data n a = Inr p"
    with rg show "in_range p"
      by (cases p) (simp_all add: in_range_def)
  qed
  obtain e tr st where mp: "makePlot savefig iter data out = (e, tr, st)"
    by (cases "makePlot savefig iter data out")
  have grid: "length (panels tr) = card A * length data
    \<and> (\<forall>i<card A. \<forall>j<length data. \<exists>p. cell data (sn ! j) (sa ! i) = Inr p
          \<and> panels tr ! (i * length data + j) = PlotPie p (i, j) (sa ! i) (sn ! j)
          \<and> st (i, j) = panel_calls p i j (sa ! i) (sn ! j))
    \<and> (\<forall>rc. \<not> (fst rc < card A \<and> snd rc < length data) \<longrightarrow> st rc = [])
    \<and> (A \<noteq> {} \<longrightarrow> e = savefig out
          \<and> tr = [Subplots (card A) (length data)] @ panels tr @ [Savefig out])"
  proof (cases "A = {}")
    case True
    with c mp have "tr = []" "st = (\<lambda>rc. [])"
      by (auto simp: makePlot_def)
    with True show ?thesis
      by (simp add: panels_def)
  next
    case False
    from makePlot_consistent
           [where iter = iter and out = out and savefig = savefig,
            OF c False sa lsa ssa sn lsn ssn rg'] mp
    have e: "e = savefig out"
      and tr: "tr = [Subplots (card A) (length data)] @ grid_panels data 0 sa sn @ [Savefig out]"
      and st: "st = grid_store data 0 sa sn (\<lambda>rc. [])"
      by simp_all
    have p: "panels tr = grid_panels data 0 sa sn"
      unfolding tr by (rule panels_grid)
    have nth: "\<exists>p. cell data (sn ! j) (sa ! i) = Inr p
          \<and> panels tr ! (i * length data + j) = PlotPie p (i, j) (sa ! i) (sn ! j)
          \<and> st (i, j) = panel_calls p i j (sa ! i) (sn ! j)"
      if i: "i < card A" and j: "j < length data" for i j
    proof -
      have "sn ! j \<in> set (map fst data)" "sa ! i \<in> A"
        using i j lsa lsn ssa ssn by (metis nth_mem)+
      from consistent_cells [OF c this] obtain q where q: "cell data (sn ! j) (sa ! i) = Inr q"
        by blast
      from i j lsa lsn have ij: "i < length sa" "j < length sn"
        by simp_all
      from nth_grid_panels [OF ij, of data 0] q lsn
      have 1: "panels tr ! (i * length data + j) = PlotPie q (i, j) (sa ! i) (sn ! j)"
        unfolding p by (simp add: stored_def)
      from ij q have 2: "st (i, j) = panel_calls q i j (sa ! i) (sn ! j)"
        unfolding st by (simp add: grid_store_def stored_def)
      from q 1 2 show ?thesis
        by blast
    qed
    have out: "st rc = []" if "\<not> (fst rc < card A \<and> snd rc < length data)" for rc
      using that unfolding st by (auto simp: grid_store_def lsa lsn)
    from p have "length (panels tr) = card A * length data"
      by (simp add: length_grid_panels lsa lsn)
    moreover from p tr have "tr = [Subplots (card A) (length data)] @ panels tr @ [Savefig out]"
      by simp
    ultimately show ?thesis
      using e nth out by blast
  qed
  from sa sn dsa ssa dsn ssn mp grid show ?thesis
    by blast
qed

theorem makePlot_one_panel_per_pair_witness:
  "\<exists>tr st. makePlot (\<lambda>path. None) sorted_list_of_set
           [(''ORF2:A5G'', [(''Serum cap'', Some (8 :: real)), (''Serum native'', None)]),
            (''ORF1:Y2435K'', [(''Serum native'', Some 42), (''Serum cap'', Some 7)])]
           ''out.png'' = (None, tr, st)
      \<and> length (panels tr) = 4
      \<and> panels tr ! 0 = PlotPie (Some 42) (0, 0) ''Serum native'' ''ORF1:Y2435K''
      \<and> panels tr ! 1 = PlotPie None (0, 1) ''Serum native'' ''ORF2:A5G''
      \<and> panels tr ! 2 = PlotPie (Some 7) (1, 0) ''Serum cap'' ''ORF1:Y2435K''
      \<and> panels tr ! 3 = PlotPie (Some 8) (1, 1) ''Serum cap'' ''ORF2:A5G''
      \<and> st (0, 1) = [SetTitle ''ORF2:A5G'', AxisOff]
      \<and> st (1, 0) = [SetYLabel ''Serum cap'', Pie (7, 93) None None]
      \<and> st (2, 0) = []"
proof -
  define t :: "real table" where
    "t = [(''ORF2:A5G'', [(''Serum cap'', Some 8), (''Serum native'', None)]),
          (''ORF1:Y2435K'', [(''Serum native'', Some 42), (''Serum cap'', Some 7)])]"
  define A where "A = {''Serum cap'', ''Serum native''}"
  have eq: "{''Serum native'', ''Serum cap''} = {''Serum cap'', ''Serum native''}"
    by (rule insert_commute)
  have c: "checkApproachNames t = Inr A"
    by (simp add: t_def A_def checkApproachNames_def dict_get_def eq)
  have d: "distinct (map fst t)"
    by (simp add: t_def)
  have it: "set (sorted_list_of_set A) = A \<and> distinct (sorted_list_of_set A)"
    by (simp add: A_def)
  have rk: "\<forall>a\<in>A. \<exists>k. rowKey a = Inr k"
    by (simp add: A_def rowKey_def split_ws_def isspace_def method_index_def)
  have ck: "\<forall>n\<in>set (map fst t). \<exists>k. columnKey n = Inr k"
    by (simp add: t_def columnKey_def split_on_def search_int_def digits_search_def isdigit_def)
  have rg: "\<forall>n a v. cell t n a = Inr (Some v) \<longrightarrow> 0 \<le> v \<and> v \<le> 100"
    by (auto simp: t_def cell_def dict_get_def split: if_splits)
  from makePlot_one_panel_per_pair
         [where iter = sorted_list_of_set and out = "''out.png''" and savefig = "\<lambda>path. None",
          OF c d it rk ck rg]
  obtain sa sn e tr st where
    sa: "sorted_py rowKey (sorted_list_of_set A) = Inr sa" and
    sn: "sorted_py columnKey (map fst t) = Inr sn" and
    mp: "makePlot (\<lambda>path. None) sorted_list_of_set t ''out.png'' = (e, tr, st)" and
    len: "length (panels tr) = card A * length t" and
    nth: "\<forall>i<card A. \<forall>j<length t. \<exists>p. cell t (sn ! j) (sa ! i) = Inr p
            \<and> panels tr ! (i * length t + j) = PlotPie p (i, j) (sa ! i) (sn ! j)
            \<and> st (i, j) = panel_calls p i j (sa ! i) (sn ! j)" and
    outside: "\<forall>rc. \<not> (fst rc < card A \<and> snd rc < length t) \<longrightarrow> st rc = []" and
    ok: "A \<noteq> {} \<longrightarrow> e = None
          \<and> tr = [Subplots (card A) (length t)] @ panels tr @ [Savefig ''out.png'']"
    by blast
  have sa': "sa = [''Serum native'', ''Serum cap'']"
    using sa by (simp add: A_def sorted_py_def rowKey_def split_ws_def isspace_def method_index_def)
  have sn': "sn = [''ORF1:Y2435K'', ''ORF2:A5G'']"
    using sn
    by (simp add: t_def sorted_py_def columnKey_def split_on_def search_int_def digits_search_def
          isdigit_def int_of_digits_def)
  have cardA: "card A = 2" and lt: "length t = 2"
    by (simp_all add: A_def t_def)
  have e: "e = None"
    using ok by (simp add: A_def)
  have n: "length (panels tr) = 4"
    using len by (simp add: cardA lt)
  have cells: "cell t ''ORF1:Y2435K'' ''Serum native'' = Inr (Some 42)"
    "cell t ''ORF2:A5G'' ''Serum native'' = Inr None"
    "cell t ''ORF1:Y2435K'' ''Serum cap'' = Inr (Some 7)"
    "cell t ''ORF2:A5G'' ''Serum cap'' = Inr (Some 8)"
    by (simp_all add: t_def cell_def dict_get_def)
  have p0: "panels tr ! 0 = PlotPie (Some 42) (0, 0) ''Serum native'' ''ORF1:Y2435K''"
    using nth [rule_format, of 0 0] cells by (simp add: cardA lt sa' sn')
  have p1: "panels tr ! 1 = PlotPie None (0, 1) ''Serum native'' ''ORF2:A5G''
            \<and> st (0, 1) = [SetTitle ''ORF2:A5G'', AxisOff]"
    using nth [rule_format, of 0 1] cells by (auto simp: cardA lt sa' sn' panel_calls_def)
  have p2: "panels tr ! 2 = PlotPie (Some 7) (1, 0) ''Serum cap'' ''ORF1:Y2435K''
            \<and> st (1, 0) = [SetYLabel ''Serum cap'', Pie (7, 93) None None]"
    using nth [rule_format, of 1 0] cells by (auto simp: cardA lt sa' sn' panel_calls_def)
  have p3: "panels tr ! 3 = PlotPie (Some 8) (1, 1) ''Serum cap'' ''ORF2:A5G''"
    using nth [rule_format, of 1 1] cells by (simp add: cardA lt sa' sn' numeral_3_eq_3)
  have o: "st (2, 0) = []"
    using outside [rule_format, of "(2, 0)"] by (simp add: cardA)
  from mp e n p0 p1 p2 p3 o show ?thesis
    unfolding t_def by blast
qed

text \<open>
  C6 as stated fails. The table with the one mutation ORF1:Y2435K and the one approach
  Serum pcr is consistent, with one approach and one mutation, and \<^verbatim>\<open>makePlot\<close> draws no
  panel: \<^verbatim>\<open>rowKey\<close> raises \<^verbatim>\<open>ValueError\<close> for the method pcr after \<^verbatim>\<open>plt.subplots\<close>. The
  consistent table with the approach Serum native and the percentages 150 for ORF1:Y2435K
  and 7 for ORF2:A5G has one approach and two mutations, and \<^verbatim>\<open>makePlot\<close> ends in its first
  call of \<^verbatim>\<open>plotPie\<close>, where \<^verbatim>\<open>pie\<close> raises for the negative slice: no pie is drawn, the second
  panel is never reached and \<^verbatim>\<open>plt.savefig\<close> is not called.
\<close>

theorem makePlot_unknown_method_counterexample:
  "checkApproachNames [(''ORF1:Y2435K'', [(''Serum pcr'', Some (42 :: real))])]
     = Inr {''Serum pcr''}
   \<and> card {''Serum pcr''} * length [(''ORF1:Y2435K'', [(''Serum pcr'', Some (42 :: real))])] = 1
   \<and> makePlot (\<lambda>path. None) sorted_list_of_set
        [(''ORF1:Y2435K'', [(''Serum pcr'', Some (42 :: real))])] ''out.png''
       = (Some (ValueError [Repr ''pcr'', Lit '' is not in list'']), [Subplots 1 1], \<lambda>rc. [])
   \<and> panels [Subplots 1 1 :: real call] = []
   \<and> checkApproachNames [(''ORF1:Y2435K'', [(''Serum native'', Some (150 :: real))]),
                          (''ORF2:A5G'', [(''Serum native'', Some 7)])]
       = Inr {''Serum native''}
   \<and> fst (makePlot (\<lambda>path. None) sorted_list_of_set
             [(''ORF1:Y2435K'', [(''Serum native'', Some (150 :: real))]),
              (''ORF2:A5G'', [(''Serum native'', Some 7)])] ''out.png'')
       = Some pie_error
   \<and> fst (snd (makePlot (\<lambda>path. None) sorted_list_of_set
                  [(''ORF1:Y2435K'', [(''Serum native'', Some (150 :: real))]),
                   (''ORF2:A5G'', [(''Serum native'', Some 7)])] ''out.png''))
       = [Subplots 1 2, PlotPie (Some 150) (0, 0) ''Serum native'' ''ORF1:Y2435K'']
   \<and> snd (snd (makePlot (\<lambda>path. None) sorted_list_of_set
                  [(''ORF1:Y2435K'', [(''Serum native'', Some (150 :: real))]),
                   (''ORF2:A5G'', [(''Serum native'', Some 7)])] ''out.png'')) (0, 0)
       = [SetTitle ''ORF1:Y2435K'', SetYLabel ''Serum native'']"
  by (simp add: makePlot_def checkApproachNames_def dict_get_def sorted_py_def rowKey_def
        split_ws_def isspace_def method_index_def panels_def is_PlotPie_def columnKey_def
        split_on_def search_int_def digits_search_def isdigit_def int_of_digits_def
        dimensionalIterator_def cell_def plotPie_def ax_call_def)

end
